theory Spec2Isabelle
  imports Complex_Main "HOL-Library.Multiset"
begin

section \<open>Python values and failures\<close>

text \<open>
  The handlers of \<^verbatim>\<open>frigate/http.py\<close> are modelled as functions from the application
  state and the request to \<open>error + response\<close>. \<open>Inl e\<close> is an exception that no
  handler of the module catches: Flask answers it with status 500. \<open>ArrayError\<close> stands
  for whatever \<^verbatim>\<open>np.zeros\<close> raises for a shape it cannot build, \<open>Cv2Error\<close> for what a
  call into OpenCV raises (by the library, or by its binding for an argument that it
  cannot convert), and \<open>StoreError\<close> for the exception of the database.
\<close>

datatype error =
    ValueError | ZeroDivisionError | OverflowError | ArrayError | Cv2Error | StoreError

definition and_then :: "error + 'a \<Rightarrow> ('a \<Rightarrow> error + 'b) \<Rightarrow> error + 'b" where
  "and_then m f = (case m of Inl e \<Rightarrow> Inl e | Inr x \<Rightarrow> f x)"

subsection \<open>\<^verbatim>\<open>int(s)\<close> on a query-string value\<close>

text \<open>
  Python's \<^verbatim>\<open>int(s)\<close> for a string: surrounding whitespace (the blank, the
  characters 9 to 13, and 133 and 160) is stripped, one sign is allowed, then decimal
  digits, where single underscores may stand between digits. Anything else raises
  \<^verbatim>\<open>ValueError\<close> (here \<open>None\<close>). Characters are code points below 256; digits outside
  ASCII are not modelled. Later interpreters refuse texts of more than 4300 digits; the
  theorems that rest on a successful conversion bound the length of the text
  (\<open>short_values\<close> below), so that they hold with and without that rule.
\<close>

definition isspace :: "char \<Rightarrow> bool" where
  "isspace c = (c \<in> set [CHR '' '', CHR 0x09, CHR 0x0A, CHR 0x0B, CHR 0x0C, CHR 0x0D,
                          CHR 0x85, CHR 0xA0])"

definition isdigit :: "char \<Rightarrow> bool" where
  "isdigit c = (c \<in> set ''0123456789'')"

definition strip :: "string \<Rightarrow> string" where
  "strip s = rev (dropWhile isspace (rev (dropWhile isspace s)))"

fun digits :: "nat \<Rightarrow> string \<Rightarrow> nat option" where
  "digits acc [] = Some acc"
| "digits acc (c # cs) =
     (if isdigit c then digits (10 * acc + (of_char c - 48)) cs
      else if c = CHR ''_'' \<and> cs \<noteq> [] \<and> isdigit (hd cs) then digits acc cs
      else None)"

definition literal :: "string \<Rightarrow> nat option" where
  "literal s = (case s of [] \<Rightarrow> None | c # _ \<Rightarrow> if isdigit c then digits 0 s else None)"

definition py_int :: "string \<Rightarrow> int option" where
  "py_int s =
     (case strip s of
        [] \<Rightarrow> None
      | c # cs \<Rightarrow>
          if c = CHR ''-'' then map_option (\<lambda>n. - int n) (literal cs)
          else if c = CHR ''+'' then map_option int (literal cs)
          else map_option int (literal (c # cs)))"

definition int_of :: "string \<Rightarrow> error + int" where
  "int_of s = (case py_int s of None \<Rightarrow> Inl ValueError | Some n \<Rightarrow> Inr n)"

text \<open>
  \<^verbatim>\<open>int(a / b)\<close> for integers \<open>a\<close> and \<open>b\<close>: the true quotient, rounded to a double
  and cut toward zero. Division by zero raises, and so does a quotient too large for a
  double. For \<open>\<bar>b\<bar> < 2 ^ 31\<close> and a quotient below \<open>2 ^ 21\<close> the cut of the double is the
  cut of the exact quotient: a quotient that is not an integer is at least \<open>2 ^ - 31\<close>
  away from one, and the doubles below \<open>2 ^ 21\<close> are at most \<open>2 ^ - 32\<close> apart. Every
  image that the handlers produce lies in this range (\<^verbatim>\<open>cv2.resize\<close> and
  \<^verbatim>\<open>cv2.imencode\<close> below reject the sizes outside it), and the model gives the exact
  cut.
\<close>

definition truediv_int :: "int \<Rightarrow> int \<Rightarrow> error + int" where
  "truediv_int a b =
     (if b = 0 then Inl ZeroDivisionError
      else if (2 ^ 1024 - 2 ^ 970) * \<bar>b\<bar> \<le> \<bar>a\<bar> then Inl OverflowError
      else Inr (sgn a * sgn b * (\<bar>a\<bar> div \<bar>b\<bar>)))"

subsection \<open>Query parameters\<close>

text \<open>
  \<^verbatim>\<open>request.args\<close>: the first value of each query parameter.
  \<^verbatim>\<open>request.args.get(key, type=int)\<close> is \<^verbatim>\<open>None\<close> when the key is missing and also when
  the conversion raises \<^verbatim>\<open>ValueError\<close> (werkzeug's \<^verbatim>\<open>MultiDict.get\<close> catches it and
  returns the default).
\<close>

type_synonym args = "string \<Rightarrow> string option"

definition get_default :: "args \<Rightarrow> string \<Rightarrow> string \<Rightarrow> string" where
  "get_default a key dflt = (case a key of None \<Rightarrow> dflt | Some v \<Rightarrow> v)"

definition get_type_int :: "args \<Rightarrow> string \<Rightarrow> int option" where
  "get_type_int a key = (case a key of None \<Rightarrow> None | Some v \<Rightarrow> py_int v)"

definition short_values :: "args \<Rightarrow> bool" where
  \<comment> \<open>no parameter that a handler reads is longer than 4300 characters\<close>
  "short_values a =
     list_all (\<lambda>key. case a key of None \<Rightarrow> True | Some v \<Rightarrow> length v \<le> 4300)
       [''limit'', ''camera'', ''label'', ''zone'', ''after'', ''before'', ''crop'', ''h'', ''fps'']"

section \<open>Data\<close>

subsection \<open>Events\<close>

text \<open>
  Modelled from the spec: the \<^verbatim>\<open>Event\<close> model (\<^verbatim>\<open>frigate/models.py\<close>) is not part of
  the sources. Its attributes are the spec's: identifier, camera, label, start and end
  timestamps (unix epoch), the zones (stored as a JSON list of names) and the thumbnail.
\<close>

record event =
  Event_id :: string
  Event_camera :: string
  Event_label :: string
  Event_start_time :: int
  Event_end_time :: int
  Event_zones :: "string list"
  Event_thumbnail :: string

subsection \<open>Frames\<close>

text \<open>
  A frame is a numpy array, of which the model keeps the shape (\<^verbatim>\<open>shape[0]\<close> rows,
  \<^verbatim>\<open>shape[1]\<close> columns) and whether its content is the all-zero placeholder or comes
  from captured data.

  Whether a new image can be built depends on the machine and the moment. It is a
  parameter of the model: an allocator \<open>alloc rows cols\<close> says whether the process can
  hold and process a new image of that shape. OpenCV addresses rows and columns with C
  integers, so a side of \<open>2 ^ 31\<close> or more is refused whatever the memory, and a JPEG
  image has at most 65500 rows and 65500 columns.
\<close>

datatype pixels = Zeros | Data

record frame =
  shape0 :: nat
  shape1 :: nat
  content :: pixels

type_synonym allocator = "nat \<Rightarrow> nat \<Rightarrow> bool"

definition np_zeros :: "allocator \<Rightarrow> int \<Rightarrow> int \<Rightarrow> error + frame" where
  \<comment> \<open>\<^verbatim>\<open>np.zeros((h, w, 3), np.uint8)\<close>: a negative dimension raises, and so does an array
      that cannot be built\<close>
  "np_zeros alloc h w =
     (if h < 0 \<or> w < 0 \<or> \<not> alloc (nat h) (nat w) then Inl ArrayError
      else Inr \<lparr>shape0 = nat h, shape1 = nat w, content = Zeros\<rparr>)"

definition cvtColor_YUV2BGR_I420 :: "allocator \<Rightarrow> frame \<Rightarrow> error + frame" where
  \<comment> \<open>a planar YUV 4:2:0 array of \<open>3 * h / 2\<close> rows becomes a BGR image of \<open>h\<close> rows\<close>
  "cvtColor_YUV2BGR_I420 alloc src =
     (if shape0 src = 0 \<or> shape1 src = 0 \<or> 2 ^ 31 \<le> shape0 src \<or> 2 ^ 31 \<le> shape1 src
         \<or> shape1 src mod 2 \<noteq> 0 \<or> shape0 src mod 3 \<noteq> 0
      then Inl Cv2Error
      else if \<not> alloc (shape0 src * 2 div 3) (shape1 src) then Inl Cv2Error
      else Inr \<lparr>shape0 = shape0 src * 2 div 3, shape1 = shape1 src, content = Data\<rparr>)"

definition slice_index :: "nat \<Rightarrow> int \<Rightarrow> nat" where
  \<comment> \<open>a slice bound against an axis of length \<open>n\<close>: negative bounds count from the end,
      and every bound is clipped to the axis\<close>
  "slice_index n i = (if i < 0 then nat (max (i + int n) 0) else min (nat i) n)"

definition slice_len :: "nat \<Rightarrow> int \<Rightarrow> int \<Rightarrow> nat" where
  "slice_len n a b = slice_index n b - slice_index n a"

type_synonym region = "int \<times> int \<times> int \<times> int"

definition crop_region :: "frame \<Rightarrow> region \<Rightarrow> frame" where
  \<comment> \<open>\<^verbatim>\<open>frame[region[1]:region[3], region[0]:region[2]]\<close>, a view that allocates nothing\<close>
  "crop_region src r =
     (case r of (r0, r1, r2, r3) \<Rightarrow>
        src\<lparr>shape0 := slice_len (shape0 src) r1 r3, shape1 := slice_len (shape1 src) r0 r2\<rparr>)"

definition cv2_resize :: "allocator \<Rightarrow> frame \<Rightarrow> int \<times> int \<Rightarrow> error + frame" where
  \<comment> \<open>\<^verbatim>\<open>cv2.resize(src, dsize=(width, height))\<close>: an empty source, a target side that is
      not positive, a side that does not fit a C integer and a target that cannot be
      allocated all raise\<close>
  "cv2_resize alloc src dsize =
     (case dsize of (width, height) \<Rightarrow>
        if shape0 src = 0 \<or> shape1 src = 0 \<or> 2 ^ 31 \<le> shape0 src \<or> 2 ^ 31 \<le> shape1 src
          then Inl Cv2Error
        else if width \<le> 0 \<or> height \<le> 0 \<or> 2 ^ 31 \<le> width \<or> 2 ^ 31 \<le> height
          then Inl Cv2Error
        else if \<not> alloc (nat height) (nat width) then Inl Cv2Error
        else Inr (src\<lparr>shape0 := nat height, shape1 := nat width\<rparr>))"

definition cv2_imencode :: "frame \<Rightarrow> error + frame" where
  \<comment> \<open>\<^verbatim>\<open>cv2.imencode('.jpg', img)\<close>: the JPEG bytes are represented by the image they
      encode; an empty image and a side above 65500 cannot be encoded\<close>
  "cv2_imencode img =
     (if shape0 img = 0 \<or> shape1 img = 0 \<or> 65500 < shape0 img \<or> 65500 < shape1 img
      then Inl Cv2Error
      else Inr img)"

subsection \<open>Application state\<close>

record best_object =
  get_frame :: "frame option"
  get_region :: "region option"

text \<open>
  Modelled from the spec: the frame processor (\<^verbatim>\<open>detected_frames_processor\<close>) and the
  configuration are collaborators outside the sources. The handlers read the set of
  configured camera names, the most recent frame of a camera (plain or annotated, absent
  when there is none yet) and the best object of a camera and label (a dictionary that
  may lack the frame and the region). The state also holds the allocator of the process.
\<close>

record app =
  cameras :: "string set"
  get_current_frame :: "string \<Rightarrow> bool \<Rightarrow> frame option"
  get_best :: "string \<Rightarrow> string \<Rightarrow> best_object"
  can_allocate :: allocator

section \<open>Responses\<close>

datatype body =
    Text string
  | Json_events "event list"
  | Jpg frame
  | Multipart string int int

datatype response = Response nat body

definition not_found :: "string \<Rightarrow> response" where
  \<comment> \<open>\<^verbatim>\<open>"Camera named {} not found".format(camera_name), 404\<close>\<close>
  "not_found camera_name = Response 404 (Text (''Camera named '' @ camera_name @ '' not found''))"

section \<open>Image endpoints\<close>

definition requested_height :: "args \<Rightarrow> frame \<Rightarrow> error + int" where
  \<comment> \<open>\<^verbatim>\<open>int(request.args.get('h', str(frame.shape[0])))\<close>; the default is the frame's own
      height, since \<^verbatim>\<open>int(str(n)) = n\<close>\<close>
  "requested_height a img =
     (case a ''h'' of None \<Rightarrow> Inr (int (shape0 img)) | Some v \<Rightarrow> int_of v)"

definition resize_to_height :: "allocator \<Rightarrow> frame \<Rightarrow> int \<Rightarrow> error + response" where
  \<comment> \<open>the common tail of \<^verbatim>\<open>best\<close> and \<^verbatim>\<open>latest_frame\<close>: derive the width, resize, encode\<close>
  "resize_to_height alloc img height =
     and_then (truediv_int (height * int (shape1 img)) (int (shape0 img))) (\<lambda>width.
     and_then (cv2_resize alloc img (width, height)) (\<lambda>resized.
     and_then (cv2_imencode resized) (\<lambda>jpg.
     Inr (Response 200 (Jpg jpg)))))"

definition latest_frame :: "app \<Rightarrow> string \<Rightarrow> args \<Rightarrow> error + response" where
  "latest_frame current_app camera_name a =
     (if camera_name \<in> cameras current_app then
        and_then (case get_current_frame current_app camera_name False of
                    None \<Rightarrow> np_zeros (can_allocate current_app) 720 1280
                  | Some f \<Rightarrow> Inr f) (\<lambda>img.
        and_then (requested_height a img) (\<lambda>height.
        resize_to_height (can_allocate current_app) img height))
      else Inr (not_found camera_name))"

definition crop_requested :: "args \<Rightarrow> bool" where
  \<comment> \<open>\<^verbatim>\<open>bool(request.args.get('crop', 0, type=int))\<close>\<close>
  "crop_requested a = (case get_type_int a ''crop'' of None \<Rightarrow> False | Some n \<Rightarrow> n \<noteq> 0)"

definition region_or_default :: "best_object \<Rightarrow> region" where
  \<comment> \<open>\<^verbatim>\<open>best_object.get('region', [0,0,300,300])\<close>\<close>
  "region_or_default best_obj =
     (case get_region best_obj of None \<Rightarrow> (0, 0, 300, 300) | Some r \<Rightarrow> r)"

definition best :: "app \<Rightarrow> string \<Rightarrow> string \<Rightarrow> args \<Rightarrow> error + response" where
  "best current_app camera_name lbl a =
     (if camera_name \<in> cameras current_app then
        let best_obj = get_best current_app camera_name lbl in
        and_then (case get_frame best_obj of
                    None \<Rightarrow> np_zeros (can_allocate current_app) 720 1280
                  | Some f \<Rightarrow> cvtColor_YUV2BGR_I420 (can_allocate current_app) f) (\<lambda>best_frame.
        let img = (if crop_requested a
                   then crop_region best_frame (region_or_default best_obj)
                   else best_frame)
        in and_then (requested_height a img) (\<lambda>height.
           resize_to_height (can_allocate current_app) img height))
      else Inr (not_found camera_name))"

section \<open>The MJPEG stream\<close>

text \<open>
  The generator \<^verbatim>\<open>imagestream\<close> is observed through its effects: what it sleeps, when
  it asks for a frame and what it yields. One pass of the loop body either completes
  with a yield or raises; \<open>imagestream \<dots> n\<close> runs at most \<open>n\<close> passes and returns the
  effects so far together with the exception that ended the generator, if one did.
  The frame processor answers the \<open>i\<close>-th request of the stream with \<open>frames i\<close>.

  The delay \<^verbatim>\<open>1/fps\<close> is a double. Its value is a parameter of the model:
  \<open>reciprocal fps\<close> is the number of seconds that the double \<^verbatim>\<open>1/fps\<close> stands for, for
  \<open>fps\<close> other than 0. \<^verbatim>\<open>time.sleep\<close> refuses a negative delay.
\<close>

datatype effect = Sleep rat | Fetch string | Yield frame

definition imagestream_body ::
  "allocator \<Rightarrow> (int \<Rightarrow> rat) \<Rightarrow> frame option \<Rightarrow> string \<Rightarrow> int \<Rightarrow> int
     \<Rightarrow> effect list \<times> error option" where
  "imagestream_body alloc reciprocal fetched camera_name fps height =
     (if fps = 0 then ([], Some ZeroDivisionError)
      else
        let delay = reciprocal fps in
        if delay < 0 then ([], Some ValueError)
        else
          (case and_then (case fetched of
                            Some f \<Rightarrow> Inr f
                          | None \<Rightarrow> and_then (truediv_int (height * 16) 9) (np_zeros alloc height)) (\<lambda>img.
                and_then (truediv_int (height * int (shape1 img)) (int (shape0 img))) (\<lambda>width.
                and_then (cv2_resize alloc img (width, height)) (\<lambda>resized.
                cv2_imencode resized))) of
             Inl e \<Rightarrow> ([Sleep delay, Fetch camera_name], Some e)
           | Inr jpg \<Rightarrow> ([Sleep delay, Fetch camera_name, Yield jpg], None)))"

fun imagestream ::
  "allocator \<Rightarrow> (int \<Rightarrow> rat) \<Rightarrow> (nat \<Rightarrow> frame option) \<Rightarrow> string \<Rightarrow> int \<Rightarrow> int \<Rightarrow> nat
     \<Rightarrow> effect list \<times> error option" where
  "imagestream alloc reciprocal frames camera_name fps height 0 = ([], None)"
| "imagestream alloc reciprocal frames camera_name fps height (Suc n) =
     (case imagestream_body alloc reciprocal (frames 0) camera_name fps height of
        (effs, Some e) \<Rightarrow> (effs, Some e)
      | (effs, None) \<Rightarrow>
          (case imagestream alloc reciprocal (\<lambda>i. frames (Suc i)) camera_name fps height n of
             (rest, r) \<Rightarrow> (effs @ rest, r)))"

definition mjpeg_feed :: "app \<Rightarrow> string \<Rightarrow> args \<Rightarrow> error + response" where
  "mjpeg_feed current_app camera_name a =
     and_then (int_of (get_default a ''fps'' ''3'')) (\<lambda>fps.
     and_then (int_of (get_default a ''h'' ''360'')) (\<lambda>height.
     if camera_name \<in> cameras current_app
     then Inr (Response 200 (Multipart camera_name fps height))
     else Inr (not_found camera_name)))"

subsection \<open>Time\<close>






section \<open>The event query\<close>

subsection \<open>The stored zones\<close>

text \<open>
  The zones column is a JSON field: the list of zone names is written as
  \<^verbatim>\<open>json(json.dumps(zones))\<close>, and \<^verbatim>\<open>Event.zones.cast('text')\<close> reads the stored text back.
  \<^verbatim>\<open>json.dumps\<close> writes strings between double quotes and escapes the double quote,
  the backslash and every character outside the printable ASCII range; SQLite's
  \<^verbatim>\<open>json\<close> drops the blanks between the items, so that the items of the stored list
  are separated by a bare comma.
\<close>

definition hex_digit :: "nat \<Rightarrow> char" where
  "hex_digit n = ''0123456789abcdef'' ! (n mod 16)"

definition json_escape :: "char \<Rightarrow> string" where
  "json_escape c =
     (if c = CHR 0x22 then [CHR 0x5C, CHR 0x22]
      else if c = CHR 0x5C then [CHR 0x5C, CHR 0x5C]
      else if c = CHR 0x0A then [CHR 0x5C, CHR ''n'']
      else if c = CHR 0x0D then [CHR 0x5C, CHR ''r'']
      else if c = CHR 0x09 then [CHR 0x5C, CHR ''t'']
      else if c = CHR 0x08 then [CHR 0x5C, CHR ''b'']
      else if c = CHR 0x0C then [CHR 0x5C, CHR ''f'']
      else if (of_char c :: nat) < 32 \<or> 126 < (of_char c :: nat)
        then [CHR 0x5C, CHR ''u'', CHR ''0'', CHR ''0'',
              hex_digit (of_char c div 16), hex_digit (of_char c mod 16)]
      else [c])"

definition json_string :: "string \<Rightarrow> string" where
  "json_string s = CHR 0x22 # concat (map json_escape s) @ [CHR 0x22]"

fun join :: "string \<Rightarrow> string list \<Rightarrow> string" where
  "join sep [] = []"
| "join sep [x] = x"
| "join sep (x # y # ys) = x @ sep @ join sep (y # ys)"

definition zones_text :: "string list \<Rightarrow> string" where
  \<comment> \<open>the stored text of a list of zone names\<close>
  "zones_text xs = ''['' @ join '','' (map json_string xs) @ '']''"

subsection \<open>GLOB\<close>

text \<open>
  On SQLite, peewee's \<^verbatim>\<open>%\<close> operator is \<^verbatim>\<open>GLOB\<close>: \<^verbatim>\<open>*\<close> matches any run of
  characters, \<^verbatim>\<open>?\<close> any one character, \<^verbatim>\<open>[...]\<close> one character of a set (with
  ranges, negated by a leading \<^verbatim>\<open>^\<close>), and every other character itself. An
  unterminated set matches nothing. SQLite reads the pattern as a C string, which ends
  before the first character with code 0 (the stored text has none: JSON escapes it).
  SQLite refuses patterns of more than 50000 bytes;
  such patterns are outside the model, and the theorems about zone names bound the
  length of the parameter (\<open>short_values\<close>).
\<close>

fun glob_set_items :: "char \<Rightarrow> char option \<Rightarrow> bool \<Rightarrow> string \<Rightarrow> (bool \<times> string) option" where
  "glob_set_items c prior seen [] = None"
| "glob_set_items c prior seen (c2 # p) =
     (if c2 = CHR '']'' then Some (seen, p)
      else if c2 = CHR ''-'' \<and> p \<noteq> [] \<and> hd p \<noteq> CHR '']'' \<and> prior \<noteq> None then
        glob_set_items c None
          (seen \<or> ((of_char (the prior) :: nat) \<le> of_char c \<and> (of_char c :: nat) \<le> of_char (hd p)))
          (tl p)
      else glob_set_items c (Some c2) (seen \<or> c = c2) p)"

definition glob_set :: "char \<Rightarrow> string \<Rightarrow> (bool \<times> string) option" where
  \<comment> \<open>the pattern after \<^verbatim>\<open>[\<close>, against the character \<open>c\<close>: whether \<open>c\<close> is accepted, and
      the pattern after the closing \<^verbatim>\<open>]\<close>\<close>
  "glob_set c p =
     (let invert = (p \<noteq> [] \<and> hd p = CHR ''^'');
          p1 = (if invert then tl p else p);
          first_close = (p1 \<noteq> [] \<and> hd p1 = CHR '']'');
          p2 = (if first_close then tl p1 else p1)
      in case glob_set_items c None (first_close \<and> c = CHR '']'') p2 of
           None \<Rightarrow> None
         | Some (seen, rest) \<Rightarrow> Some (seen \<noteq> invert, rest))"

lemma glob_set_items_length:
  "glob_set_items c prior seen p = Some (b, rest) \<Longrightarrow> length rest < length p"
proof (induction c prior seen p rule: glob_set_items.induct)
  case (1 c prior seen)
  then show ?case by simp
next
  case (2 c prior seen c2 p)
  then show ?case
    by (cases p) (auto split: if_splits)
qed

lemma glob_set_length:
  "glob_set c p = Some (b, rest) \<Longrightarrow> length rest < Suc (length p)"
  unfolding glob_set_def Let_def
  by (cases p; cases "tl p")
    (auto split: option.splits if_splits dest!: glob_set_items_length)

definition c_string :: "string \<Rightarrow> string" where
  "c_string s = takeWhile (\<lambda>c. c \<noteq> CHR 0x00) s"

function glob :: "string \<Rightarrow> string \<Rightarrow> bool" where
  "glob [] s = (s = [])"
| "glob (p # ps) s =
     (if p = CHR ''*'' then
        (glob ps s \<or> (case s of [] \<Rightarrow> False | _ # s' \<Rightarrow> glob (p # ps) s'))
      else if p = CHR ''['' then
        (case s of
           [] \<Rightarrow> False
         | c # s' \<Rightarrow>
             (case glob_set c ps of
                None \<Rightarrow> False
              | Some (ok, rest) \<Rightarrow> ok \<and> glob rest s'))
      else
        (case s of [] \<Rightarrow> False | c # s' \<Rightarrow> (p = CHR ''?'' \<or> p = c) \<and> glob ps s'))"
  by pat_completeness auto
termination
  by (relation "measure (\<lambda>(p, s). length p + length s)")
    (auto dest: glob_set_length)

subsection \<open>The query\<close>

datatype clause =
    Camera_eq string
  | Label_eq string
  | Zones_glob string
  | Start_ge int
  | Start_le int
  | True_clause

fun holds :: "clause \<Rightarrow> event \<Rightarrow> bool" where
  "holds (Camera_eq c) e = (Event_camera e = c)"
| "holds (Label_eq l) e = (Event_label e = l)"
| "holds (Zones_glob p) e = glob (c_string p) (zones_text (Event_zones e))"
| "holds (Start_ge t) e = (t \<le> Event_start_time e)"
| "holds (Start_le t) e = (Event_start_time e \<le> t)"
| "holds True_clause e = True"

definition zone_pattern :: "string \<Rightarrow> string" where
  \<comment> \<open>the pattern \<^verbatim>\<open>*"zone"*\<close> that the handler builds from the zone parameter\<close>
  "zone_pattern zone = CHR ''*'' # CHR 0x22 # zone @ [CHR 0x22, CHR ''*'']"

datatype limit_value = Limit_int int | Limit_text string

definition limit_rows :: "int \<Rightarrow> 'a list \<Rightarrow> 'a list" where
  \<comment> \<open>SQLite's \<^verbatim>\<open>LIMIT n\<close>: a negative \<open>n\<close> means no upper bound\<close>
  "limit_rows n rows = (if n < 0 then rows else take (nat n) rows)"

text \<open>
  \<^verbatim>\<open>Event.select().where(...).order_by(Event.start_time.desc()).limit(limit)\<close> over the
  rows of the table. Rows with equal start times keep the table's order (SQL leaves
  their order open).

  The integers of the time bounds are bound as parameters of the statement: the
  driver raises \<^verbatim>\<open>OverflowError\<close> for an integer outside the signed 64-bit range, before
  the statement runs. The handler passes the \<^verbatim>\<open>limit\<close> parameter through as the text it
  received; what the store makes of a text is the store's business and a parameter of
  the model: \<open>to_integer t\<close> is the integer the store reads from \<open>t\<close>, or \<open>None\<close> when it
  rejects \<open>t\<close>, which ends the request with the store's exception.
\<close>

fun binds :: "clause \<Rightarrow> bool" where
  "binds (Start_ge t) = (- (2 ^ 63) \<le> t \<and> t < 2 ^ 63)"
| "binds (Start_le t) = (- (2 ^ 63) \<le> t \<and> t < 2 ^ 63)"
| "binds c = True"

definition select_events ::
  "(string \<Rightarrow> int option) \<Rightarrow> event list \<Rightarrow> clause list \<Rightarrow> limit_value \<Rightarrow> error + event list" where
  "select_events to_integer table clauses limit =
     (if \<not> list_all binds clauses then Inl OverflowError
      else
        let rows = sort_key (\<lambda>e. - Event_start_time e)
                     (filter (\<lambda>e. list_all (\<lambda>c. holds c e) clauses) table)
        in case limit of
             Limit_int n \<Rightarrow> Inr (limit_rows n rows)
           | Limit_text t \<Rightarrow>
               (case to_integer t of
                  None \<Rightarrow> Inl StoreError
                | Some n \<Rightarrow> Inr (limit_rows n rows)))"

definition clauses_of :: "args \<Rightarrow> clause list" where
  \<comment> \<open>the list \<^verbatim>\<open>clauses\<close> as the handler builds it; Python's \<^verbatim>\<open>if x:\<close> skips \<^verbatim>\<open>None\<close>,
      the empty string and the integer 0\<close>
  "clauses_of a =
     (let camera = a ''camera'';
          label = a ''label'';
          zone = a ''zone'';
          after = get_type_int a ''after'';
          before = get_type_int a ''before'';
          clauses = [];
          clauses = (case camera of
                       Some c \<Rightarrow> if c \<noteq> [] then clauses @ [Camera_eq c] else clauses
                     | None \<Rightarrow> clauses);
          clauses = (case label of
                       Some l \<Rightarrow> if l \<noteq> [] then clauses @ [Label_eq l] else clauses
                     | None \<Rightarrow> clauses);
          clauses = (case zone of
                       Some z \<Rightarrow> if z \<noteq> [] then clauses @ [Zones_glob (zone_pattern z)] else clauses
                     | None \<Rightarrow> clauses);
          clauses = (case after of
                       Some t \<Rightarrow> if t \<noteq> 0 then clauses @ [Start_ge t] else clauses
                     | None \<Rightarrow> clauses);
          clauses = (case before of
                       Some t \<Rightarrow> if t \<noteq> 0 then clauses @ [Start_le t] else clauses
                     | None \<Rightarrow> clauses)
      in if length clauses = 0 then clauses @ [True_clause] else clauses)"

definition events :: "(string \<Rightarrow> int option) \<Rightarrow> event list \<Rightarrow> args \<Rightarrow> error + response" where
  "events to_integer table a =
     (let limit = (case a ''limit'' of None \<Rightarrow> Limit_int 100 | Some v \<Rightarrow> Limit_text v)
      in and_then (select_events to_integer table (clauses_of a) limit) (\<lambda>rows.
         Inr (Response 200 (Json_events rows))))"

text \<open>
  What the spec asks of one event, in its words: the camera and the label match exactly,
  the start time lies within the inclusive bounds, every supplied option holds. A text
  option counts as supplied when it is not empty. The zone test is the handler's.
\<close>

definition spec_matches :: "args \<Rightarrow> event \<Rightarrow> bool" where
  "spec_matches a e =
     ((case a ''camera'' of None \<Rightarrow> True | Some c \<Rightarrow> c = [] \<or> Event_camera e = c)
      \<and> (case a ''label'' of None \<Rightarrow> True | Some l \<Rightarrow> l = [] \<or> Event_label e = l)
      \<and> (case a ''zone'' of
            None \<Rightarrow> True
          | Some z \<Rightarrow> z = [] \<or> glob (c_string (zone_pattern z)) (zones_text (Event_zones e)))
      \<and> (case get_type_int a ''after'' of None \<Rightarrow> True | Some t \<Rightarrow> t \<le> Event_start_time e)
      \<and> (case get_type_int a ''before'' of None \<Rightarrow> True | Some t \<Rightarrow> Event_start_time e \<le> t))"

text \<open>
  Plain zone names: printable characters other than the space, without the characters
  that JSON escapes (the double quote and the backslash), GLOB's wildcards and the
  comma. \<open>split_quotes\<close> cuts a text at its double quotes, and \<open>intersperse\<close> puts a
  separator between the items of a list.
\<close>

definition plain_char :: "char \<Rightarrow> bool" where
  "plain_char c =
     (32 < (of_char c :: nat) \<and> (of_char c :: nat) < 127
      \<and> c \<notin> set [CHR 0x22, CHR 0x5C, CHR ''*'', CHR ''?'', CHR ''['', CHR '',''])"

fun split_quotes :: "string \<Rightarrow> string list" where
  "split_quotes [] = [[]]"
| "split_quotes (c # s) =
     (if c = CHR 0x22 then [] # split_quotes s
      else (c # hd (split_quotes s)) # tl (split_quotes s))"

fun intersperse :: "'a \<Rightarrow> 'a list \<Rightarrow> 'a list" where
  "intersperse sep [] = []"
| "intersperse sep [x] = [x]"
| "intersperse sep (x # y # ys) = x # sep # intersperse sep (y # ys)"

section \<open>Runtime statistics\<close>

text \<open>
  Modelled from the spec: the gauges are shared values written by the camera and
  detector processes, which are outside the sources. The handler reads
  \<^verbatim>\<open>current_app.camera_metrics\<close> and \<^verbatim>\<open>current_app.detectors\<close>, two dictionaries, here
  lists of items in the order of iteration.

  The gauges hold doubles, and the handler adds, multiplies and rounds doubles. The
  type \<open>'d\<close> stands for the doubles, and their arithmetic is a parameter of the model:
  the number that \<^verbatim>\<open>total_detection_fps = 0\<close> starts from, the sum of two doubles, the
  product of a double with 1000, and \<^verbatim>\<open>round(x, 2)\<close>.
\<close>

record 'd arithmetic =
  float_zero :: 'd
  float_add :: "'d \<Rightarrow> 'd \<Rightarrow> 'd"
  float_times_1000 :: "'d \<Rightarrow> 'd"
  float_round2 :: "'d \<Rightarrow> 'd"

record 'd camera_stats =
  camera_fps :: 'd
  process_fps :: 'd
  skipped_fps :: 'd
  detection_fps :: 'd
  process_pid :: "int option"
  capture_process_pid :: "int option"

record 'd detector =
  avg_inference_speed :: 'd
  detection_start :: 'd
  detect_process_pid :: "int option"

record 'd metrics =
  camera_metrics :: "(string \<times> 'd camera_stats) list"
  detectors :: "(string \<times> 'd detector) list"

record 'd camera_report =
  report_camera_fps :: 'd
  report_process_fps :: 'd
  report_skipped_fps :: 'd
  report_detection_fps :: 'd
  report_pid :: "int option"
  report_capture_pid :: "int option"

record 'd detector_report =
  inference_speed :: 'd
  report_detection_start :: 'd
  report_detector_pid :: "int option"

datatype 'd stats_value =
    Camera_entry "'d camera_report"
  | Detectors_entry "string \<Rightarrow> 'd detector_report option"
  | Number 'd

datatype 'd stats_response = Stats_response nat "string \<Rightarrow> 'd stats_value option"

definition camera_entry :: "'d arithmetic \<Rightarrow> 'd camera_stats \<Rightarrow> 'd camera_report" where
  "camera_entry ar camera_stats =
     \<lparr>report_camera_fps = float_round2 ar (camera_fps camera_stats),
      report_process_fps = float_round2 ar (process_fps camera_stats),
      report_skipped_fps = float_round2 ar (skipped_fps camera_stats),
      report_detection_fps = float_round2 ar (detection_fps camera_stats),
      report_pid = process_pid camera_stats,
      report_capture_pid = capture_process_pid camera_stats\<rparr>"

definition detector_entry :: "'d arithmetic \<Rightarrow> 'd detector \<Rightarrow> 'd detector_report" where
  "detector_entry ar d =
     \<lparr>inference_speed = float_round2 ar (float_times_1000 ar (avg_inference_speed d)),
      report_detection_start = detection_start d,
      report_detector_pid = detect_process_pid d\<rparr>"

fun stats_cameras ::
  "'d arithmetic \<Rightarrow> (string \<times> 'd camera_stats) list \<Rightarrow> 'd \<times> (string \<Rightarrow> 'd stats_value option)
     \<Rightarrow> 'd \<times> (string \<Rightarrow> 'd stats_value option)" where
  \<comment> \<open>the loop over \<^verbatim>\<open>camera_metrics.items()\<close>, on the pair of \<^verbatim>\<open>total_detection_fps\<close>
      and \<^verbatim>\<open>stats\<close>\<close>
  "stats_cameras ar [] acc = acc"
| "stats_cameras ar ((name, camera_stats) # rest) (total_detection_fps, stats) =
     stats_cameras ar rest
       (float_add ar total_detection_fps (detection_fps camera_stats),
        stats(name \<mapsto> Camera_entry (camera_entry ar camera_stats)))"

fun stats_detectors ::
  "'d arithmetic \<Rightarrow> (string \<times> 'd detector) list \<Rightarrow> (string \<Rightarrow> 'd detector_report option)
     \<Rightarrow> (string \<Rightarrow> 'd detector_report option)" where
  "stats_detectors ar [] entries = entries"
| "stats_detectors ar ((name, d) # rest) entries =
     stats_detectors ar rest (entries(name \<mapsto> detector_entry ar d))"

definition stats_dict :: "'d arithmetic \<Rightarrow> 'd metrics \<Rightarrow> string \<Rightarrow> 'd stats_value option" where
  \<comment> \<open>the dictionary \<^verbatim>\<open>stats\<close> that the handler serialises\<close>
  "stats_dict ar current_app =
     (case stats_cameras ar (camera_metrics current_app) (float_zero ar, Map.empty) of
        (total_detection_fps, stats) \<Rightarrow>
          (stats(''detectors'' \<mapsto>
                   Detectors_entry (stats_detectors ar (detectors current_app) Map.empty)))
            (''detection_fps'' \<mapsto> Number (float_round2 ar total_detection_fps)))"

definition stats :: "'d arithmetic \<Rightarrow> 'd metrics \<Rightarrow> 'd stats_response \<times> 'd metrics" where
  \<comment> \<open>the handler reads each gauge's \<^verbatim>\<open>value\<close> and writes none: the state after the
      request is the state before it\<close>
  "stats ar current_app = (Stats_response 200 (stats_dict ar current_app), current_app)"

text \<open>
  \<^verbatim>\<open>round(x, 2)\<close> on the number that a double stands for: the nearest multiple of 0.01,
  a tie going to the even one (the double that Python returns is the one nearest to
  this decimal). On doubles whose sum is a double again, the arithmetic of the handler
  is the arithmetic of the rationals with this rounding.
\<close>

definition round_half_even :: "rat \<Rightarrow> int" where
  "round_half_even x =
     (let f = \<lfloor>x\<rfloor>; d = x - of_int f
      in if d < 1 / 2 then f else if 1 / 2 < d then f + 1 else if even f then f else f + 1)"

definition py_round2 :: "rat \<Rightarrow> rat" where
  "py_round2 x = of_int (round_half_even (x * 100)) / 100"

definition exact :: "rat arithmetic" where
  "exact = \<lparr>float_zero = 0, float_add = (+), float_times_1000 = (\<lambda>x. x * 1000),
            float_round2 = py_round2\<rparr>"

section \<open>Concrete states used by the closed theorems\<close>

definition blank_720 :: frame where
  \<comment> \<open>the placeholder \<^verbatim>\<open>np.zeros((720,1280,3), np.uint8)\<close>\<close>
  "blank_720 = \<lparr>shape0 = 720, shape1 = 1280, content = Zeros\<rparr>"

definition demo_app :: app where
  \<comment> \<open>one camera, no frame and no best object yet\<close>
  "demo_app =
     \<lparr>cameras = {''front''},
      get_current_frame = (\<lambda>_ _. None),
      get_best = (\<lambda>_ _. \<lparr>get_frame = None, get_region = None\<rparr>),
      can_allocate = (\<lambda>rows cols. rows * cols \<le> 100000000)\<rparr>"

definition live_app :: app where
  \<comment> \<open>one camera with a 1280 x 720 frame; its best object holds the YUV frame
      (1080 rows) and a region\<close>
  "live_app =
     \<lparr>cameras = {''front''},
      get_current_frame = (\<lambda>_ _. Some \<lparr>shape0 = 720, shape1 = 1280, content = Data\<rparr>),
      get_best = (\<lambda>_ _. \<lparr>get_frame = Some \<lparr>shape0 = 1080, shape1 = 1280, content = Data\<rparr>,
                           get_region = Some (100, 50, 400, 350)\<rparr>),
      can_allocate = (\<lambda>rows cols. rows * cols \<le> 100000000)\<rparr>"

definition unregioned_app :: app where
  \<comment> \<open>as \<open>live_app\<close>, but the best object records no region\<close>
  "unregioned_app =
     \<lparr>cameras = {''front''},
      get_current_frame = (\<lambda>_ _. Some \<lparr>shape0 = 720, shape1 = 1280, content = Data\<rparr>),
      get_best = (\<lambda>_ _. \<lparr>get_frame = Some \<lparr>shape0 = 1080, shape1 = 1280, content = Data\<rparr>,
                           get_region = None\<rparr>),
      can_allocate = (\<lambda>rows cols. rows * cols \<le> 100000000)\<rparr>"

definition yard_event :: event where
  "yard_event =
     \<lparr>Event_id = ''1'', Event_camera = ''front'', Event_label = ''person'',
      Event_start_time = 10, Event_end_time = 15, Event_zones = [''yard''],
      Event_thumbnail = []\<rparr>"

definition street_event :: event where
  "street_event =
     \<lparr>Event_id = ''2'', Event_camera = ''back'', Event_label = ''car'',
      Event_start_time = 30, Event_end_time = 31, Event_zones = [],
      Event_thumbnail = []\<rparr>"

definition porch_event :: event where
  "porch_event =
     \<lparr>Event_id = ''3'', Event_camera = ''front'', Event_label = ''person'',
      Event_start_time = 20, Event_end_time = 22, Event_zones = [''front_yard'', ''porch''],
      Event_thumbnail = []\<rparr>"

definition demo_table :: "event list" where
  "demo_table = [yard_event, street_event, porch_event]"

definition slow_camera :: "rat camera_stats" where
  \<comment> \<open>a camera that detects \<open>2 ^ - 8\<close> times per second, a value that is a double\<close>
  "slow_camera =
     \<lparr>camera_fps = 5, process_fps = 5, skipped_fps = 0, detection_fps = 1 / 256,
      process_pid = Some 11, capture_process_pid = Some 12\<rparr>"

definition two_cameras :: "rat metrics" where
  "two_cameras =
     \<lparr>camera_metrics = [(''front'', slow_camera), (''back'', slow_camera)],
      detectors = []\<rparr>"

definition reciprocal_exact :: "int \<Rightarrow> rat" where
  \<comment> \<open>the delay \<^verbatim>\<open>1/fps\<close> for the rates at which the quotient is a double: 1, 2, 4 and
      the other powers of two, and their negatives\<close>
  "reciprocal_exact fps = 1 / of_int fps"

section \<open>Evaluating the conversions\<close>

lemma py_int_0: "py_int ''0'' = Some 0"
  by code_simp

lemma py_int_1: "py_int ''1'' = Some 1"
  by code_simp

lemma py_int_4: "py_int ''4'' = Some 4"
  by code_simp

lemma py_int_180: "py_int ''180'' = Some 180"
  by code_simp

lemma py_int_360: "py_int ''360'' = Some 360"
  by code_simp

lemma py_int_x: "py_int ''x'' = None"
  by code_simp

lemma short_values_empty: "short_values Map.empty"
  by (simp add: short_values_def)

lemma short_values_upd:
  "short_values a \<Longrightarrow> length v \<le> 4300 \<Longrightarrow> short_values (a(k \<mapsto> v))"
  by (simp add: short_values_def)

lemma np_zeros_720: "alloc 720 1280 \<Longrightarrow> np_zeros alloc 720 1280 = Inr blank_720"
  by (simp add: np_zeros_def blank_720_def)

lemma truediv_int_pos:
  assumes "0 \<le> a" and "0 < b" and "a < 2 ^ 64"
  shows "truediv_int a b = Inr (a div b)"
proof -
  define K :: int where "K = 2 ^ 1024 - 2 ^ 970"
  have K: "2 ^ 64 \<le> K"
    unfolding K_def by simp
  have "(0::int) \<le> 2 ^ 64"
    by simp
  then have p: "0 \<le> K"
    using K by (rule order_trans)
  have "a < K"
    using assms(3) K by (rule less_le_trans)
  also have "K = K * 1"
    by simp
  also have "\<dots> \<le> K * b"
    using assms(2) p by (intro mult_left_mono) simp_all
  finally have "\<not> K * \<bar>b\<bar> \<le> \<bar>a\<bar>"
    using assms(1,2) by simp
  then show ?thesis
    using assms(1,2) unfolding K_def by (simp add: truediv_int_def sgn_if)
qed

lemma div_cut_bounds:
  fixes a b :: int
  assumes "0 < b"
  shows "(of_int (a div b) :: rat) \<le> of_int a / of_int b
       \<and> of_int a / of_int b < (of_int (a div b) :: rat) + 1"
proof -
  have "\<lfloor>(of_int a / of_int b :: rat)\<rfloor> = a div b"
    by (rule floor_divide_of_int_eq)
  with floor_correct [of "of_int a / of_int b :: rat"] show ?thesis
    by simp
qed

section \<open>Resizing\<close>

lemma resize_to_height_ok:
  assumes "0 < shape0 img" and "shape0 img < 2 ^ 31"
    and "0 < shape1 img" and "shape1 img < 2 ^ 31"
    and "0 < height" and "height \<le> 65500"
    and "int (shape0 img) \<le> height * int (shape1 img)"
    and "height * int (shape1 img) div int (shape0 img) \<le> 65500"
    and "alloc (nat height) (nat (height * int (shape1 img) div int (shape0 img)))"
  shows "resize_to_height alloc img height =
     Inr (Response 200 (Jpg (img\<lparr>shape0 := nat height,
        shape1 := nat (height * int (shape1 img) div int (shape0 img))\<rparr>)))"
proof -
  let ?w = "height * int (shape1 img) div int (shape0 img)"
  have w: "0 < ?w"
    using assms(1,7) by (simp add: pos_imp_zdiv_pos_iff)
  have "height * int (shape1 img) \<le> 65500 * 2 ^ 31"
    using assms(4,5,6) by (intro mult_mono) simp_all
  then have "height * int (shape1 img) < 2 ^ 64"
    by simp
  then have t: "truediv_int (height * int (shape1 img)) (int (shape0 img)) = Inr ?w"
    using assms(1,5) by (intro truediv_int_pos) simp_all
  have s: "\<not> (2::nat) ^ 31 \<le> shape0 img" "\<not> (2::nat) ^ 31 \<le> shape1 img"
    using assms(2,4) by simp_all
  have r: "cv2_resize alloc img (?w, height) = Inr (img\<lparr>shape0 := nat height, shape1 := nat ?w\<rparr>)"
    using assms(1,3,5,6,8,9) w s by (simp add: cv2_resize_def)
  have e: "cv2_imencode (img\<lparr>shape0 := nat height, shape1 := nat ?w\<rparr>)
             = Inr (img\<lparr>shape0 := nat height, shape1 := nat ?w\<rparr>)"
    using assms(5,6,8) w by (simp add: cv2_imencode_def not_less nat_le_iff)
  show ?thesis
    by (simp add: resize_to_height_def t r e and_then_def)
qed

lemma resize_to_height_zero:
  assumes "0 < shape0 img"
  shows "resize_to_height alloc img 0 = Inl Cv2Error"
proof -
  have "truediv_int 0 (int (shape0 img)) = Inr 0"
    using assms by (simp add: truediv_int_def)
  then show ?thesis
    by (simp add: resize_to_height_def and_then_def cv2_resize_def)
qed

lemma crop_default_shape:
  "crop_region g (0, 0, 300, 300)
     = g\<lparr>shape0 := min 300 (shape0 g), shape1 := min 300 (shape1 g)\<rparr>"
  by (simp add: crop_region_def slice_len_def slice_index_def)

lemma demo_allocates: "rows * cols \<le> 100000000 \<Longrightarrow> can_allocate demo_app rows cols"
  by (simp add: demo_app_def)

lemma live_allocates: "rows * cols \<le> 100000000 \<Longrightarrow> can_allocate live_app rows cols"
  by (simp add: live_app_def)

lemma unregioned_allocates:
  "rows * cols \<le> 100000000 \<Longrightarrow> can_allocate unregioned_app rows cols"
  by (simp add: unregioned_app_def)

section \<open>Unknown cameras\<close>

text \<open>
  C9. Each camera-scoped route is to answer a camera that is not configured with 404 and
  a plain-text body, without a server fault. \<^verbatim>\<open>best\<close> and \<^verbatim>\<open>latest_frame\<close> test the
  camera name before anything else. \<^verbatim>\<open>mjpeg_feed\<close> converts \<^verbatim>\<open>fps\<close> and \<^verbatim>\<open>h\<close> first:
  for the unknown camera \<open>nocam\<close> and \<^verbatim>\<open>fps=x\<close> the conversion raises \<^verbatim>\<open>ValueError\<close>
  before the camera is looked up, where the two sibling routes answer 404.
\<close>

theorem unknown_camera_stream_fault:
  "mjpeg_feed demo_app ''nocam'' [''fps'' \<mapsto> ''x''] = Inl ValueError
   \<and> ''nocam'' \<notin> cameras demo_app
   \<and> latest_frame demo_app ''nocam'' [''fps'' \<mapsto> ''x'']
       = Inr (Response 404 (Text ''Camera named nocam not found''))
   \<and> best demo_app ''nocam'' ''person'' [''fps'' \<mapsto> ''x'']
       = Inr (Response 404 (Text ''Camera named nocam not found''))"
  by (simp add: mjpeg_feed_def latest_frame_def best_def demo_app_def get_default_def
      int_of_def py_int_x and_then_def not_found_def)

section \<open>A stream with \<open>fps = 0\<close>\<close>

text \<open>
  C10. \<^verbatim>\<open>mjpeg_feed\<close> does not check that \<^verbatim>\<open>fps\<close> is positive. For a configured camera
  and a request (with parameters of at most 4300 characters) whose \<^verbatim>\<open>fps\<close> converts to
  0 and whose \<^verbatim>\<open>h\<close> converts at all, the response is the 200 multipart stream, not a
  400-class answer, and the generator raises \<^verbatim>\<open>ZeroDivisionError\<close> in its first pass,
  when it computes \<^verbatim>\<open>1/fps\<close>: before any sleep, fetch or frame, whatever the frames,
  the memory and the arithmetic of the delay.
\<close>

theorem mjpeg_feed_fps_zero:
  assumes "camera_name \<in> cameras current_app"
    and "short_values a"
    and "py_int (get_default a ''fps'' ''3'') = Some 0"
    and "py_int (get_default a ''h'' ''360'') = Some height"
  shows "mjpeg_feed current_app camera_name a
           = Inr (Response 200 (Multipart camera_name 0 height))
       \<and> imagestream alloc reciprocal frames camera_name 0 height (Suc n)
           = ([], Some ZeroDivisionError)"
  using assms(1,3,4)
  by (simp add: mjpeg_feed_def int_of_def and_then_def imagestream_body_def)

theorem mjpeg_feed_fps_zero_witness:
  "''front'' \<in> cameras demo_app
   \<and> short_values [''fps'' \<mapsto> ''0'']
   \<and> py_int (get_default [''fps'' \<mapsto> ''0''] ''fps'' ''3'') = Some 0
   \<and> py_int (get_default [''fps'' \<mapsto> ''0''] ''h'' ''360'') = Some 360
   \<and> mjpeg_feed demo_app ''front'' [''fps'' \<mapsto> ''0'']
       = Inr (Response 200 (Multipart ''front'' 0 360))
   \<and> imagestream (can_allocate demo_app) reciprocal_exact (\<lambda>_. None) ''front'' 0 360 (Suc 0)
       = ([], Some ZeroDivisionError)"
proof -
  have c: "''front'' \<in> cameras demo_app"
    by (simp add: demo_app_def)
  have s: "short_values [''fps'' \<mapsto> ''0'']"
    by (simp add: short_values_def)
  have f: "py_int (get_default [''fps'' \<mapsto> ''0''] ''fps'' ''3'') = Some 0"
    by (simp add: get_default_def py_int_0)
  have h: "py_int (get_default [''fps'' \<mapsto> ''0''] ''h'' ''360'') = Some 360"
    by (simp add: get_default_def py_int_360)
  from mjpeg_feed_fps_zero
      [OF c s f h, of "can_allocate demo_app" reciprocal_exact "\<lambda>_. None" 0] c s f h
  show ?thesis
    by simp
qed

section \<open>Aspect-preserving resize\<close>

text \<open>
  C4 (as stated) asks for an image of height \<open>H'\<close> for every requested height \<open>H'\<close>. The
  handlers pass \<^verbatim>\<open>h\<close> to \<^verbatim>\<open>cv2.resize\<close> unchecked, and a target size with a side that
  is not positive is rejected there: with a 1280 x 720 frame and \<^verbatim>\<open>h=0\<close> both endpoints
  raise instead of producing an image.
\<close>

theorem resize_zero_height_fails:
  "get_current_frame live_app ''front'' False = Some \<lparr>shape0 = 720, shape1 = 1280, content = Data\<rparr>
   \<and> latest_frame live_app ''front'' [''h'' \<mapsto> ''0''] = Inl Cv2Error
   \<and> best live_app ''front'' ''person'' [''h'' \<mapsto> ''0''] = Inl Cv2Error"
  by (simp add: latest_frame_def best_def live_app_def and_then_def requested_height_def
      int_of_def py_int_0 resize_to_height_zero cvtColor_YUV2BGR_I420_def
      crop_requested_def get_type_int_def)

text \<open>
  C4 (amended). Take a configured camera, a request with parameters of at most 4300
  characters, a source image of width \<open>W\<close> and height \<open>H\<close>, both positive and below
  \<open>2 ^ 31\<close> (the current frame for \<^verbatim>\<open>latest.jpg\<close>; the converted best frame, cropped when
  \<^verbatim>\<open>crop\<close> is set, for \<^verbatim>\<open>best.jpg\<close>), and a requested height \<open>H'\<close> between 1 and 65500
  whose derived width \<open>H' * W div H\<close> is between 1 and 65500 as well, the bounds of a JPEG
  image. If the process can allocate an image of that size, both endpoints answer 200
  with an image of height \<open>H'\<close> and width \<open>H' * W div H\<close>: the quotient \<open>H' * W / H\<close> cut
  toward zero, less than one pixel below it.
\<close>

theorem resize_keeps_aspect:
  assumes "camera_name \<in> cameras current_app"
    and "short_values a"
    and "0 < shape0 img" and "shape0 img < 2 ^ 31"
    and "0 < shape1 img" and "shape1 img < 2 ^ 31"
    and "a ''h'' = Some t" and "py_int t = Some height"
    and "0 < height" and "height \<le> 65500"
    and "int (shape0 img) \<le> height * int (shape1 img)"
    and "height * int (shape1 img) div int (shape0 img) \<le> 65500"
    and "can_allocate current_app (nat height)
           (nat (height * int (shape1 img) div int (shape0 img)))"
  shows "(get_current_frame current_app camera_name False = Some img \<longrightarrow>
            latest_frame current_app camera_name a =
              Inr (Response 200 (Jpg (img\<lparr>shape0 := nat height,
                shape1 := nat (height * int (shape1 img) div int (shape0 img))\<rparr>))))
       \<and> (get_frame (get_best current_app camera_name lbl) = Some yuv \<longrightarrow>
            cvtColor_YUV2BGR_I420 (can_allocate current_app) yuv = Inr bgr \<longrightarrow>
            img = (if crop_requested a
                   then crop_region bgr (region_or_default (get_best current_app camera_name lbl))
                   else bgr) \<longrightarrow>
            best current_app camera_name lbl a =
              Inr (Response 200 (Jpg (img\<lparr>shape0 := nat height,
                shape1 := nat (height * int (shape1 img) div int (shape0 img))\<rparr>))))
       \<and> (of_int (height * int (shape1 img) div int (shape0 img)) :: rat)
           \<le> of_int (height * int (shape1 img)) / of_int (int (shape0 img))
       \<and> of_int (height * int (shape1 img)) / of_int (int (shape0 img))
           < (of_int (height * int (shape1 img) div int (shape0 img)) :: rat) + 1"
proof -
  have r: "resize_to_height (can_allocate current_app) img height =
     Inr (Response 200 (Jpg (img\<lparr>shape0 := nat height,
        shape1 := nat (height * int (shape1 img) div int (shape0 img))\<rparr>)))"
    using assms(3,4,5,6,9,10,11,12,13) by (rule resize_to_height_ok)
  have h: "requested_height a img = Inr height"
    using assms(7,8) by (simp add: requested_height_def int_of_def)
  have l: "get_current_frame current_app camera_name False = Some img \<Longrightarrow>
            latest_frame current_app camera_name a
              = resize_to_height (can_allocate current_app) img height"
    using assms(1) h by (simp add: latest_frame_def and_then_def)
  have b: "get_frame (get_best current_app camera_name lbl) = Some yuv \<Longrightarrow>
            cvtColor_YUV2BGR_I420 (can_allocate current_app) yuv = Inr bgr \<Longrightarrow>
            img = (if crop_requested a
                   then crop_region bgr (region_or_default (get_best current_app camera_name lbl))
                   else bgr) \<Longrightarrow>
            best current_app camera_name lbl a
              = resize_to_height (can_allocate current_app) img height"
    using assms(1) h by (simp add: best_def and_then_def Let_def)
  have d: "(of_int (height * int (shape1 img) div int (shape0 img)) :: rat)
           \<le> of_int (height * int (shape1 img)) / of_int (int (shape0 img))
       \<and> of_int (height * int (shape1 img)) / of_int (int (shape0 img))
           < (of_int (height * int (shape1 img) div int (shape0 img)) :: rat) + 1"
    using assms(3) by (intro div_cut_bounds) simp
  have L: "get_current_frame current_app camera_name False = Some img \<longrightarrow>
            latest_frame current_app camera_name a =
              Inr (Response 200 (Jpg (img\<lparr>shape0 := nat height,
                shape1 := nat (height * int (shape1 img) div int (shape0 img))\<rparr>)))"
    using l r by simp
  have B: "get_frame (get_best current_app camera_name lbl) = Some yuv \<longrightarrow>
            cvtColor_YUV2BGR_I420 (can_allocate current_app) yuv = Inr bgr \<longrightarrow>
            img = (if crop_requested a
                   then crop_region bgr (region_or_default (get_best current_app camera_name lbl))
                   else bgr) \<longrightarrow>
            best current_app camera_name lbl a =
              Inr (Response 200 (Jpg (img\<lparr>shape0 := nat height,
                shape1 := nat (height * int (shape1 img) div int (shape0 img))\<rparr>)))"
  proof (intro impI)
    assume "get_frame (get_best current_app camera_name lbl) = Some yuv"
      and "cvtColor_YUV2BGR_I420 (can_allocate current_app) yuv = Inr bgr"
      and "img = (if crop_requested a
                   then crop_region bgr (region_or_default (get_best current_app camera_name lbl))
                   else bgr)"
    then have "best current_app camera_name lbl a
                 = resize_to_height (can_allocate current_app) img height"
      by (rule b)
    with r show "best current_app camera_name lbl a =
              Inr (Response 200 (Jpg (img\<lparr>shape0 := nat height,
                shape1 := nat (height * int (shape1 img) div int (shape0 img))\<rparr>)))"
      by simp
  qed
  from L B d show ?thesis
    by blast
qed

theorem resize_keeps_aspect_witness:
  "''front'' \<in> cameras live_app
   \<and> short_values [''h'' \<mapsto> ''180'']
   \<and> [''h'' \<mapsto> ''180''] ''h'' = Some ''180'' \<and> py_int ''180'' = Some 180
   \<and> can_allocate live_app 180 320
   \<and> get_current_frame live_app ''front'' False = Some \<lparr>shape0 = 720, shape1 = 1280, content = Data\<rparr>
   \<and> latest_frame live_app ''front'' [''h'' \<mapsto> ''180'']
       = Inr (Response 200 (Jpg \<lparr>shape0 = 180, shape1 = 320, content = Data\<rparr>))
   \<and> get_frame (get_best live_app ''front'' ''person'')
       = Some \<lparr>shape0 = 1080, shape1 = 1280, content = Data\<rparr>
   \<and> cvtColor_YUV2BGR_I420 (can_allocate live_app) \<lparr>shape0 = 1080, shape1 = 1280, content = Data\<rparr>
       = Inr \<lparr>shape0 = 720, shape1 = 1280, content = Data\<rparr>
   \<and> \<not> crop_requested [''h'' \<mapsto> ''180'']
   \<and> best live_app ''front'' ''person'' [''h'' \<mapsto> ''180'']
       = Inr (Response 200 (Jpg \<lparr>shape0 = 180, shape1 = 320, content = Data\<rparr>))"
proof -
  let ?img = "\<lparr>shape0 = 720, shape1 = 1280, content = Data\<rparr>"
  let ?yuv = "\<lparr>shape0 = 1080, shape1 = 1280, content = Data\<rparr>"
  let ?a = "[''h'' \<mapsto> ''180'']"
  have c: "''front'' \<in> cameras live_app"
    by (simp add: live_app_def)
  have s: "short_values ?a"
    by (simp add: short_values_def)
  have m: "can_allocate live_app 180 320"
    by (simp add: live_allocates)
  have f: "get_current_frame live_app ''front'' False = Some ?img"
    by (simp add: live_app_def)
  have y: "get_frame (get_best live_app ''front'' ''person'') = Some ?yuv"
    by (simp add: live_app_def)
  have v: "cvtColor_YUV2BGR_I420 (can_allocate live_app) ?yuv = Inr ?img"
    by (simp add: cvtColor_YUV2BGR_I420_def live_allocates)
  have n: "\<not> crop_requested ?a"
    by (simp add: crop_requested_def get_type_int_def)
  from resize_keeps_aspect
      [of "''front''" live_app ?a ?img "''180''" 180 "''person''" ?yuv ?img]
    c s m f y v n py_int_180
  show ?thesis
    by simp
qed

section \<open>The placeholder\<close>

text \<open>
  C8 (as stated) promises that a request to a configured camera without a frame never
  fails. The placeholder is substituted, but \<^verbatim>\<open>h\<close> is converted and passed on
  unchecked: \<^verbatim>\<open>h=x\<close> raises \<^verbatim>\<open>ValueError\<close> and \<^verbatim>\<open>h=0\<close> makes \<^verbatim>\<open>cv2.resize\<close> fail,
  on both endpoints.
\<close>

theorem placeholder_bad_height_fails:
  "get_current_frame demo_app ''front'' False = None
   \<and> latest_frame demo_app ''front'' [''h'' \<mapsto> ''x''] = Inl ValueError
   \<and> best demo_app ''front'' ''person'' [''h'' \<mapsto> ''x''] = Inl ValueError
   \<and> latest_frame demo_app ''front'' [''h'' \<mapsto> ''0''] = Inl Cv2Error
   \<and> best demo_app ''front'' ''person'' [''h'' \<mapsto> ''0''] = Inl Cv2Error"
proof -
  have m: "np_zeros (can_allocate demo_app) 720 1280 = Inr blank_720"
    by (simp add: np_zeros_720 demo_allocates)
  have z: "resize_to_height (can_allocate demo_app) blank_720 0 = Inl Cv2Error"
    by (rule resize_to_height_zero) (simp add: blank_720_def)
  have c: "''front'' \<in> cameras demo_app"
    and f: "get_current_frame demo_app ''front'' False = None"
    and b: "get_best demo_app ''front'' ''person'' = \<lparr>get_frame = None, get_region = None\<rparr>"
    by (simp_all add: demo_app_def)
  show ?thesis
    using c f b
    by (simp add: latest_frame_def best_def m z and_then_def requested_height_def
        int_of_def py_int_0 py_int_x crop_requested_def get_type_int_def)
qed

text \<open>
  C8 (amended). Take a configured camera and a request with parameters of at most 4300
  characters whose height \<open>H'\<close> (\<^verbatim>\<open>h\<close> absent, so that \<open>H'\<close> is the placeholder's own
  height, or \<^verbatim>\<open>h\<close> an integer) is between 1 and 65500 and gives a derived width of at
  most 65500, the bounds of a JPEG image, in a process that can allocate the 1280 x 720
  placeholder and the resized image. Then \<^verbatim>\<open>latest.jpg\<close> without a current frame and
  \<^verbatim>\<open>best.jpg\<close> without a best object answer 200 with the all-zero placeholder resized to
  that height; with \<^verbatim>\<open>crop\<close> set, \<^verbatim>\<open>best.jpg\<close> answers with the placeholder's 300 x 300
  corner resized to that height.
\<close>

theorem placeholder_when_no_frame:
  assumes "camera_name \<in> cameras current_app"
    and "short_values a"
    and "0 < height" and "height \<le> 65500"
    and "can_allocate current_app 720 1280"
  shows "(get_current_frame current_app camera_name False = None \<longrightarrow>
            requested_height a blank_720 = Inr height \<longrightarrow>
            height * 1280 div 720 \<le> 65500 \<longrightarrow>
            can_allocate current_app (nat height) (nat (height * 1280 div 720)) \<longrightarrow>
            latest_frame current_app camera_name a =
              Inr (Response 200 (Jpg \<lparr>shape0 = nat height,
                shape1 = nat (height * 1280 div 720), content = Zeros\<rparr>)))
       \<and> (get_best current_app camera_name lbl = \<lparr>get_frame = None, get_region = None\<rparr> \<longrightarrow>
            \<not> crop_requested a \<longrightarrow>
            requested_height a blank_720 = Inr height \<longrightarrow>
            height * 1280 div 720 \<le> 65500 \<longrightarrow>
            can_allocate current_app (nat height) (nat (height * 1280 div 720)) \<longrightarrow>
            best current_app camera_name lbl a =
              Inr (Response 200 (Jpg \<lparr>shape0 = nat height,
                shape1 = nat (height * 1280 div 720), content = Zeros\<rparr>)))
       \<and> (get_best current_app camera_name lbl = \<lparr>get_frame = None, get_region = None\<rparr> \<longrightarrow>
            crop_requested a \<longrightarrow>
            requested_height a (crop_region blank_720 (0, 0, 300, 300)) = Inr height \<longrightarrow>
            can_allocate current_app (nat height) (nat height) \<longrightarrow>
            best current_app camera_name lbl a =
              Inr (Response 200 (Jpg \<lparr>shape0 = nat height,
                shape1 = nat height, content = Zeros\<rparr>)))"
proof -
  have m: "np_zeros (can_allocate current_app) 720 1280 = Inr blank_720"
    using assms(5) by (rule np_zeros_720)
  have r: "resize_to_height (can_allocate current_app) blank_720 height =
      Inr (Response 200 (Jpg \<lparr>shape0 = nat height,
                shape1 = nat (height * 1280 div 720), content = Zeros\<rparr>))"
    if "height * 1280 div 720 \<le> 65500"
      and "can_allocate current_app (nat height) (nat (height * 1280 div 720))"
    using assms(3,4) that resize_to_height_ok [of blank_720 height "can_allocate current_app"]
    by (simp add: blank_720_def)
  have c: "resize_to_height (can_allocate current_app) (crop_region blank_720 (0, 0, 300, 300)) height =
      Inr (Response 200 (Jpg \<lparr>shape0 = nat height, shape1 = nat height, content = Zeros\<rparr>))"
    if "can_allocate current_app (nat height) (nat height)"
    using assms(3,4) that
      resize_to_height_ok [of "crop_region blank_720 (0, 0, 300, 300)" height "can_allocate current_app"]
    by (simp add: crop_default_shape blank_720_def)
  show ?thesis
    using assms(1) r c
    by (simp add: latest_frame_def best_def m and_then_def region_or_default_def)
qed

theorem placeholder_when_no_frame_witness:
  "''front'' \<in> cameras demo_app
   \<and> short_values Map.empty \<and> short_values [''crop'' \<mapsto> ''1'']
   \<and> can_allocate demo_app 720 1280 \<and> can_allocate demo_app 300 300
   \<and> get_current_frame demo_app ''front'' False = None
   \<and> get_best demo_app ''front'' ''person'' = \<lparr>get_frame = None, get_region = None\<rparr>
   \<and> \<not> crop_requested Map.empty \<and> crop_requested [''crop'' \<mapsto> ''1'']
   \<and> requested_height Map.empty blank_720 = Inr 720
   \<and> requested_height [''crop'' \<mapsto> ''1''] (crop_region blank_720 (0, 0, 300, 300)) = Inr 300
   \<and> latest_frame demo_app ''front'' Map.empty
       = Inr (Response 200 (Jpg \<lparr>shape0 = 720, shape1 = 1280, content = Zeros\<rparr>))
   \<and> best demo_app ''front'' ''person'' Map.empty
       = Inr (Response 200 (Jpg \<lparr>shape0 = 720, shape1 = 1280, content = Zeros\<rparr>))
   \<and> best demo_app ''front'' ''person'' [''crop'' \<mapsto> ''1'']
       = Inr (Response 200 (Jpg \<lparr>shape0 = 300, shape1 = 300, content = Zeros\<rparr>))"
proof -
  have c: "''front'' \<in> cameras demo_app"
    by (simp add: demo_app_def)
  have s: "short_values Map.empty" "short_values [''crop'' \<mapsto> ''1'']"
    by (simp_all add: short_values_def)
  have m: "can_allocate demo_app 720 1280" "can_allocate demo_app 300 300"
    by (simp_all add: demo_allocates)
  have f: "get_current_frame demo_app ''front'' False = None"
    and b: "get_best demo_app ''front'' ''person'' = \<lparr>get_frame = None, get_region = None\<rparr>"
    by (simp_all add: demo_app_def)
  have n: "\<not> crop_requested Map.empty" and y: "crop_requested [''crop'' \<mapsto> ''1'']"
    by (simp_all add: crop_requested_def get_type_int_def py_int_1)
  have h: "requested_height Map.empty blank_720 = Inr 720"
    and k: "requested_height [''crop'' \<mapsto> ''1''] (crop_region blank_720 (0, 0, 300, 300)) = Inr 300"
    by (simp_all add: requested_height_def blank_720_def crop_default_shape)
  from placeholder_when_no_frame [of "''front''" demo_app Map.empty 720 "''person''"]
    placeholder_when_no_frame [of "''front''" demo_app "[''crop'' \<mapsto> ''1'']" 300 "''person''"]
    c s m f b n y h k
  show ?thesis
    by simp
qed

section \<open>Cropping without a recorded region\<close>

text \<open>
  C7 (as stated) has the default region full-frame-sized and the request never failing.
  The default is \<^verbatim>\<open>[0,0,300,300]\<close>: without a best object the answer to \<^verbatim>\<open>crop=1\<close> is a
  300 x 300 image, where the uncropped answer is 1280 x 720; and \<^verbatim>\<open>crop=1&h=0\<close> fails
  in \<^verbatim>\<open>cv2.resize\<close>.
\<close>

theorem crop_default_not_full_frame:
  "get_region (get_best demo_app ''front'' ''person'') = None
   \<and> best demo_app ''front'' ''person'' [''crop'' \<mapsto> ''1'']
       = Inr (Response 200 (Jpg \<lparr>shape0 = 300, shape1 = 300, content = Zeros\<rparr>))
   \<and> best demo_app ''front'' ''person'' Map.empty
       = Inr (Response 200 (Jpg \<lparr>shape0 = 720, shape1 = 1280, content = Zeros\<rparr>))
   \<and> best demo_app ''front'' ''person'' [''crop'' \<mapsto> ''1'', ''h'' \<mapsto> ''0''] = Inl Cv2Error"
proof -
  let ?al = "can_allocate demo_app"
  have m: "np_zeros ?al 720 1280 = Inr blank_720"
    by (simp add: np_zeros_720 demo_allocates)
  have a: "resize_to_height ?al \<lparr>shape0 = 300, shape1 = 300, content = Zeros\<rparr> 300
            = Inr (Response 200 (Jpg \<lparr>shape0 = 300, shape1 = 300, content = Zeros\<rparr>))"
    using resize_to_height_ok [of "\<lparr>shape0 = 300, shape1 = 300, content = Zeros\<rparr>" 300 ?al]
    by (simp add: demo_allocates)
  have b: "resize_to_height ?al blank_720 720
            = Inr (Response 200 (Jpg \<lparr>shape0 = 720, shape1 = 1280, content = Zeros\<rparr>))"
    using resize_to_height_ok [of blank_720 720 ?al]
    by (simp add: blank_720_def demo_allocates)
  have y: "crop_requested [''crop'' \<mapsto> ''1'']"
    and z: "crop_requested [''crop'' \<mapsto> ''1'', ''h'' \<mapsto> ''0'']"
    and n: "\<not> crop_requested Map.empty"
    by (simp_all add: crop_requested_def get_type_int_def py_int_1)
  have e: "resize_to_height ?al \<lparr>shape0 = 300, shape1 = 300, content = Zeros\<rparr> 0 = Inl Cv2Error"
    by (rule resize_to_height_zero) simp
  have c: "''front'' \<in> cameras demo_app"
    and g: "get_best demo_app ''front'' ''person'' = \<lparr>get_frame = None, get_region = None\<rparr>"
    by (simp_all add: demo_app_def)
  have k: "crop_region blank_720 (0, 0, 300, 300) = \<lparr>shape0 = 300, shape1 = 300, content = Zeros\<rparr>"
    by (simp add: crop_default_shape blank_720_def)
  have d: "shape0 blank_720 = 720"
    by (simp add: blank_720_def)
  show ?thesis
    using a b e c
    by (simp add: best_def g m and_then_def y z n region_or_default_def k d
        requested_height_def int_of_def py_int_0)
qed

text \<open>
  C7 (amended). Take a configured camera whose best object records no region, a request
  with parameters of at most 4300 characters and \<^verbatim>\<open>crop\<close> set, a best frame (the
  placeholder, or the converted stored frame) of positive width \<open>W\<close> and height \<open>H\<close>, and
  a requested height \<open>H'\<close> between 1 and 65500 whose derived width is between 1 and 65500,
  in a process that can allocate the resized image. The frame is cropped to the fixed
  region from (0, 0) to (300, 300), clipped to the frame, and the answer is 200 with that
  crop resized to height \<open>H'\<close>.
\<close>

theorem crop_default_region:
  assumes "camera_name \<in> cameras current_app"
    and "short_values a"
    and "get_region (get_best current_app camera_name lbl) = None"
    and "crop_requested a"
    and "(case get_frame (get_best current_app camera_name lbl) of
            None \<Rightarrow> np_zeros (can_allocate current_app) 720 1280
          | Some f \<Rightarrow> cvtColor_YUV2BGR_I420 (can_allocate current_app) f) = Inr best_frame"
    and "0 < shape0 best_frame" and "0 < shape1 best_frame"
    and "requested_height a (crop_region best_frame (0, 0, 300, 300)) = Inr height"
    and "0 < height" and "height \<le> 65500"
    and "int (min 300 (shape0 best_frame)) \<le> height * int (min 300 (shape1 best_frame))"
    and "height * int (min 300 (shape1 best_frame)) div int (min 300 (shape0 best_frame))
           \<le> 65500"
    and "can_allocate current_app (nat height)
           (nat (height * int (min 300 (shape1 best_frame))
                   div int (min 300 (shape0 best_frame))))"
  shows "crop_region best_frame (region_or_default (get_best current_app camera_name lbl))
           = best_frame\<lparr>shape0 := min 300 (shape0 best_frame),
                        shape1 := min 300 (shape1 best_frame)\<rparr>
       \<and> best current_app camera_name lbl a =
           Inr (Response 200 (Jpg (best_frame\<lparr>shape0 := nat height,
             shape1 := nat (height * int (min 300 (shape1 best_frame))
                              div int (min 300 (shape0 best_frame)))\<rparr>)))"
proof -
  let ?img = "crop_region best_frame (0, 0, 300, 300)"
  have s: "shape0 ?img = min 300 (shape0 best_frame)" "shape1 ?img = min 300 (shape1 best_frame)"
    by (simp_all add: crop_default_shape)
  have p: "0 < shape0 ?img" "shape0 ?img < 2 ^ 31" "0 < shape1 ?img" "shape1 ?img < 2 ^ 31"
    using assms(6,7) by (simp_all add: s min_less_iff_disj)
  have "resize_to_height (can_allocate current_app) ?img height =
     Inr (Response 200 (Jpg (?img\<lparr>shape0 := nat height,
        shape1 := nat (height * int (shape1 ?img) div int (shape0 ?img))\<rparr>)))"
    using p assms(9,10,11,12,13) by (intro resize_to_height_ok) (simp_all only: s)
  then have r: "resize_to_height (can_allocate current_app) ?img height =
     Inr (Response 200 (Jpg (best_frame\<lparr>shape0 := nat height,
             shape1 := nat (height * int (min 300 (shape1 best_frame))
                              div int (min 300 (shape0 best_frame)))\<rparr>)))"
    by (simp add: crop_default_shape)
  have d: "region_or_default (get_best current_app camera_name lbl) = (0, 0, 300, 300)"
    using assms(3) by (simp add: region_or_default_def)
  have "best current_app camera_name lbl a
          = resize_to_height (can_allocate current_app) ?img height"
    using assms(1,4,5,8) by (simp add: best_def Let_def and_then_def d)
  with r d show ?thesis
    by (simp add: crop_default_shape)
qed

theorem crop_default_region_witness:
  "''front'' \<in> cameras unregioned_app
   \<and> short_values [''crop'' \<mapsto> ''1'']
   \<and> get_region (get_best unregioned_app ''front'' ''person'') = None
   \<and> crop_requested [''crop'' \<mapsto> ''1'']
   \<and> (case get_frame (get_best unregioned_app ''front'' ''person'') of
         None \<Rightarrow> np_zeros (can_allocate unregioned_app) 720 1280
       | Some f \<Rightarrow> cvtColor_YUV2BGR_I420 (can_allocate unregioned_app) f)
       = Inr \<lparr>shape0 = 720, shape1 = 1280, content = Data\<rparr>
   \<and> requested_height [''crop'' \<mapsto> ''1'']
        (crop_region \<lparr>shape0 = 720, shape1 = 1280, content = Data\<rparr> (0, 0, 300, 300)) = Inr 300
   \<and> can_allocate unregioned_app 300 300
   \<and> best unregioned_app ''front'' ''person'' [''crop'' \<mapsto> ''1'']
       = Inr (Response 200 (Jpg \<lparr>shape0 = 300, shape1 = 300, content = Data\<rparr>))"
proof -
  let ?g = "\<lparr>shape0 = 720, shape1 = 1280, content = Data\<rparr>"
  let ?a = "[''crop'' \<mapsto> ''1'']"
  have c: "''front'' \<in> cameras unregioned_app"
    and r: "get_region (get_best unregioned_app ''front'' ''person'') = None"
    by (simp_all add: unregioned_app_def)
  have s: "short_values ?a"
    by (simp add: short_values_def)
  have y: "crop_requested ?a"
    by (simp add: crop_requested_def get_type_int_def py_int_1)
  have v: "cvtColor_YUV2BGR_I420 (can_allocate unregioned_app)
             \<lparr>shape0 = 1080, shape1 = 1280, content = Data\<rparr> = Inr ?g"
    by (simp add: cvtColor_YUV2BGR_I420_def unregioned_allocates)
  have f: "get_frame (get_best unregioned_app ''front'' ''person'')
             = Some \<lparr>shape0 = 1080, shape1 = 1280, content = Data\<rparr>"
    by (simp add: unregioned_app_def)
  have g: "(case get_frame (get_best unregioned_app ''front'' ''person'') of
         None \<Rightarrow> np_zeros (can_allocate unregioned_app) 720 1280
       | Some f \<Rightarrow> cvtColor_YUV2BGR_I420 (can_allocate unregioned_app) f) = Inr ?g"
    by (simp add: f v)
  have h: "requested_height ?a (crop_region ?g (0, 0, 300, 300)) = Inr 300"
    by (simp add: requested_height_def crop_default_shape)
  have m: "can_allocate unregioned_app 300 300"
    by (simp add: unregioned_allocates)
  from crop_default_region [of "''front''" unregioned_app ?a "''person''" ?g 300] c s r y g h m
  show ?thesis
    by simp
qed

section \<open>The event query: order, limit and filters\<close>

lemma py_int_minus_1: "py_int ''-1'' = Some (- 1)"
  by code_simp

lemma py_int_abc: "py_int ''abc'' = None"
  by code_simp

lemma holds_clauses_of:
  assumes "get_type_int a ''after'' \<noteq> Some 0" and "get_type_int a ''before'' \<noteq> Some 0"
  shows "list_all (\<lambda>c. holds c e) (clauses_of a) = spec_matches a e"
  using assms
  by (auto simp add: clauses_of_def spec_matches_def Let_def split: option.splits)

lemma binds_clauses_of:
  "list_all binds (clauses_of a) =
     ((case get_type_int a ''after'' of
         None \<Rightarrow> True | Some t \<Rightarrow> t = 0 \<or> - (2 ^ 63) \<le> t \<and> t < 2 ^ 63)
      \<and> (case get_type_int a ''before'' of
            None \<Rightarrow> True | Some t \<Rightarrow> t = 0 \<or> - (2 ^ 63) \<le> t \<and> t < 2 ^ 63))"
  by (auto simp add: clauses_of_def Let_def split: option.splits)

lemma events_limited:
  assumes "a ''limit'' = None \<and> n = 100 \<or> (\<exists>t. a ''limit'' = Some t \<and> to_integer t = Some n)"
    and "0 \<le> n"
    and "list_all binds (clauses_of a)"
  shows "events to_integer table a =
     Inr (Response 200 (Json_events (take (nat n) (sort_key (\<lambda>e. - Event_start_time e)
       (filter (\<lambda>e. list_all (\<lambda>c. holds c e) (clauses_of a)) table)))))"
  using assms
  by (auto simp add: events_def select_events_def and_then_def limit_rows_def Let_def)

lemma sorted_desc_sort_key:
  "sorted_wrt (\<lambda>x y. Event_start_time y \<le> Event_start_time x)
     (sort_key (\<lambda>e. - Event_start_time e) xs)"
proof -
  have "sorted (map (\<lambda>e. - Event_start_time e) (sort_key (\<lambda>e. - Event_start_time e) xs))"
    by (rule sorted_sort_key)
  then show ?thesis
    by (simp add: sorted_map)
qed

lemma take_of_sorted:
  assumes "sorted_wrt (\<lambda>x y. Event_start_time y \<le> Event_start_time x) xs"
  shows "sorted_wrt (\<lambda>x y. Event_start_time y \<le> Event_start_time x) (take k xs)
       \<and> mset (take k xs) \<subseteq># mset xs
       \<and> (\<forall>x \<in># mset xs - mset (take k xs). \<forall>y \<in> set (take k xs).
            Event_start_time x \<le> Event_start_time y)"
proof -
  have s: "sorted_wrt (\<lambda>x y. Event_start_time y \<le> Event_start_time x) (take k xs @ drop k xs)"
    using assms by simp
  have m: "mset xs = mset (take k xs) + mset (drop k xs)"
    by (metis append_take_drop_id mset_append)
  then have d: "mset xs - mset (take k xs) = mset (drop k xs)"
    by simp
  have "sorted_wrt (\<lambda>x y. Event_start_time y \<le> Event_start_time x) (take k xs)"
    using s by (simp only: sorted_wrt_append)
  moreover have "mset (take k xs) \<subseteq># mset xs"
    using m by simp
  moreover have "\<forall>x \<in># mset xs - mset (take k xs). \<forall>y \<in> set (take k xs).
            Event_start_time x \<le> Event_start_time y"
    using s unfolding d sorted_wrt_append by auto
  ultimately show ?thesis by blast
qed

lemma demo_times:
  "Event_start_time yard_event = 10" "Event_start_time street_event = 30"
  "Event_start_time porch_event = 20"
  by (simp_all add: yard_event_def street_event_def porch_event_def)

lemma demo_cameras:
  "Event_camera yard_event = ''front''" "Event_camera street_event = ''back''"
  "Event_camera porch_event = ''front''"
  by (simp_all add: yard_event_def street_event_def porch_event_def)

lemma demo_zones:
  "Event_zones yard_event = [''yard'']" "Event_zones street_event = []"
  "Event_zones porch_event = [''front_yard'', ''porch'']"
  by (simp_all add: yard_event_def street_event_def porch_event_def)

lemma events_front_limit_1:
  "events py_int demo_table [''camera'' \<mapsto> ''front'', ''limit'' \<mapsto> ''1'']
     = Inr (Response 200 (Json_events [porch_event]))"
  by (simp add: events_def select_events_def clauses_of_def get_type_int_def Let_def
      and_then_def limit_rows_def py_int_1 demo_table_def demo_times demo_cameras)

lemma events_limit_minus_1:
  "events py_int demo_table [''limit'' \<mapsto> ''-1'']
     = Inr (Response 200 (Json_events [street_event, porch_event, yard_event]))"
  by (simp add: events_def select_events_def clauses_of_def get_type_int_def Let_def
      and_then_def limit_rows_def py_int_minus_1 demo_table_def demo_times)

lemma events_before_0:
  "events py_int demo_table [''before'' \<mapsto> ''0'']
     = Inr (Response 200 (Json_events [street_event, porch_event, yard_event]))"
  by (simp add: events_def select_events_def clauses_of_def get_type_int_def Let_def
      and_then_def limit_rows_def py_int_0 demo_table_def demo_times)

lemma events_after_abc:
  "events py_int demo_table [''after'' \<mapsto> ''abc'']
     = Inr (Response 200 (Json_events [street_event, porch_event, yard_event]))"
  by (simp add: events_def select_events_def clauses_of_def get_type_int_def Let_def
      and_then_def limit_rows_def py_int_abc demo_table_def demo_times)

lemma glob_star_yard: "glob (c_string (zone_pattern ''*'')) (zones_text [''yard''])"
  by code_simp

lemma glob_star_empty: "\<not> glob (c_string (zone_pattern ''*'')) (zones_text [])"
  by code_simp

lemma glob_star_porch: "glob (c_string (zone_pattern ''*'')) (zones_text [''front_yard'', ''porch''])"
  by code_simp

lemma glob_yard_yard: "glob (c_string (zone_pattern ''yard'')) (zones_text [''yard''])"
  by code_simp

lemma glob_yard_porch: "\<not> glob (c_string (zone_pattern ''yard'')) (zones_text [''front_yard'', ''porch''])"
  by code_simp

lemma glob_yard_empty: "\<not> glob (c_string (zone_pattern ''yard'')) (zones_text [])"
  by code_simp

text \<open>
  C1 (as stated) bounds the length of every answer by \<^verbatim>\<open>limit\<close> and has every supplied
  filter applied. Neither holds for every request. The handler hands \<^verbatim>\<open>limit\<close> to the
  store unchecked, and a negative \<^verbatim>\<open>LIMIT\<close> is no limit: \<^verbatim>\<open>limit=-1\<close> returns all three
  events of the table. And \<^verbatim>\<open>if before:\<close> skips the bound 0: \<^verbatim>\<open>before=0\<close> returns events
  that started after 0.
\<close>

theorem events_negative_limit_zero_bound:
  "py_int ''-1'' = Some (- 1)
   \<and> events py_int demo_table [''limit'' \<mapsto> ''-1'']
       = Inr (Response 200 (Json_events [street_event, porch_event, yard_event]))
   \<and> \<not> int (length [street_event, porch_event, yard_event]) \<le> - 1
   \<and> get_type_int [''before'' \<mapsto> ''0''] ''before'' = Some 0
   \<and> events py_int demo_table [''before'' \<mapsto> ''0'']
       = Inr (Response 200 (Json_events [street_event, porch_event, yard_event]))
   \<and> \<not> Event_start_time street_event \<le> 0"
  by (simp add: py_int_minus_1 events_limit_minus_1 events_before_0 get_type_int_def
      py_int_0 demo_times)

text \<open>
  C1 (amended). Take a request with parameters of at most 4300 characters, whose
  \<^verbatim>\<open>limit\<close> is absent (then it is 100) or read by the store as an integer \<open>n \<ge> 0\<close>, and
  whose \<^verbatim>\<open>after\<close> and \<^verbatim>\<open>before\<close>, where they convert, are not 0 and lie in the signed
  64-bit range. The answer is 200 with a list of events that is sorted by start time
  descending, has at most \<open>n\<close> entries - exactly \<open>n\<close>, or all matching events when fewer
  match -, consists of events of the table that satisfy every supplied (non-empty)
  filter at once, and leaves out only matching events that started no later than every
  returned one. Without filters every event of the table matches, so the answer is the
  \<open>n\<close> most recent events.
\<close>

theorem events_sorted_limited:
  assumes "short_values a"
    and "a ''limit'' = None \<and> n = 100 \<or> (\<exists>t. a ''limit'' = Some t \<and> to_integer t = Some n)"
    and "0 \<le> n"
    and "case get_type_int a ''after'' of
           None \<Rightarrow> True | Some t \<Rightarrow> t \<noteq> 0 \<and> - (2 ^ 63) \<le> t \<and> t < 2 ^ 63"
    and "case get_type_int a ''before'' of
           None \<Rightarrow> True | Some t \<Rightarrow> t \<noteq> 0 \<and> - (2 ^ 63) \<le> t \<and> t < 2 ^ 63"
  shows "\<exists>rows. events to_integer table a = Inr (Response 200 (Json_events rows))
      \<and> sorted_wrt (\<lambda>x y. Event_start_time y \<le> Event_start_time x) rows
      \<and> length rows \<le> nat n
      \<and> length rows = min (nat n) (length (filter (spec_matches a) table))
      \<and> mset rows \<subseteq># mset (filter (spec_matches a) table)
      \<and> (\<forall>x \<in># mset (filter (spec_matches a) table) - mset rows. \<forall>y \<in> set rows.
            Event_start_time x \<le> Event_start_time y)
      \<and> (a ''camera'' = None \<and> a ''label'' = None \<and> a ''zone'' = None
           \<and> a ''after'' = None \<and> a ''before'' = None
          \<longrightarrow> filter (spec_matches a) table = table)"
proof -
  let ?f = "filter (spec_matches a) table"
  let ?s = "sort_key (\<lambda>e. - Event_start_time e) ?f"
  let ?rows = "take (nat n) ?s"
  have z: "get_type_int a ''after'' \<noteq> Some 0" "get_type_int a ''before'' \<noteq> Some 0"
    using assms(4,5) by (auto split: option.splits)
  have b: "list_all binds (clauses_of a)"
    using assms(4,5) unfolding binds_clauses_of by (auto split: option.splits)
  have c: "(\<lambda>e. list_all (\<lambda>c. holds c e) (clauses_of a)) = spec_matches a"
    using z by (intro ext holds_clauses_of)
  have e: "events to_integer table a = Inr (Response 200 (Json_events ?rows))"
    using events_limited [of a n to_integer table] assms(2,3) b by (simp only: c)
  have m: "mset ?s = mset ?f"
    by simp
  have t: "sorted_wrt (\<lambda>x y. Event_start_time y \<le> Event_start_time x) ?rows
       \<and> mset ?rows \<subseteq># mset ?s
       \<and> (\<forall>x \<in># mset ?s - mset ?rows. \<forall>y \<in> set ?rows.
            Event_start_time x \<le> Event_start_time y)"
    by (intro take_of_sorted sorted_desc_sort_key)
  have l: "length ?rows = min (nat n) (length ?f)"
    by (simp add: min.commute)
  have u: "a ''camera'' = None \<and> a ''label'' = None \<and> a ''zone'' = None
           \<and> a ''after'' = None \<and> a ''before'' = None
          \<longrightarrow> ?f = table"
    by (simp add: spec_matches_def get_type_int_def)
  from e t l u show ?thesis
    unfolding m by (intro exI [of _ ?rows]) simp
qed

theorem events_sorted_limited_witness:
  "short_values [''camera'' \<mapsto> ''front'', ''limit'' \<mapsto> ''1'']
   \<and> [''camera'' \<mapsto> ''front'', ''limit'' \<mapsto> ''1''] ''limit'' = Some ''1''
   \<and> py_int ''1'' = Some 1 \<and> (0::int) \<le> 1
   \<and> get_type_int [''camera'' \<mapsto> ''front'', ''limit'' \<mapsto> ''1''] ''after'' = None
   \<and> get_type_int [''camera'' \<mapsto> ''front'', ''limit'' \<mapsto> ''1''] ''before'' = None
   \<and> events py_int demo_table [''camera'' \<mapsto> ''front'', ''limit'' \<mapsto> ''1'']
       = Inr (Response 200 (Json_events [porch_event]))
   \<and> filter (spec_matches [''camera'' \<mapsto> ''front'', ''limit'' \<mapsto> ''1'']) demo_table
       = [yard_event, porch_event]
   \<and> (\<exists>rows. events py_int demo_table [''camera'' \<mapsto> ''front'', ''limit'' \<mapsto> ''1'']
                = Inr (Response 200 (Json_events rows))
         \<and> sorted_wrt (\<lambda>x y. Event_start_time y \<le> Event_start_time x) rows
         \<and> length rows \<le> nat 1
         \<and> mset rows \<subseteq># mset [yard_event, porch_event]
         \<and> (\<forall>x \<in># mset [yard_event, porch_event] - mset rows. \<forall>y \<in> set rows.
               Event_start_time x \<le> Event_start_time y))"
proof -
  let ?a = "[''camera'' \<mapsto> ''front'', ''limit'' \<mapsto> ''1'']"
  have s: "short_values ?a"
    by (simp add: short_values_def)
  have l: "?a ''limit'' = Some ''1''"
    by simp
  have b: "get_type_int ?a ''after'' = None" "get_type_int ?a ''before'' = None"
    by (simp_all add: get_type_int_def)
  have f: "filter (spec_matches ?a) demo_table = [yard_event, porch_event]"
    by (simp add: spec_matches_def get_type_int_def demo_table_def demo_cameras)
  from events_sorted_limited [of ?a 1 py_int demo_table] s l b py_int_1
  have "\<exists>rows. events py_int demo_table ?a = Inr (Response 200 (Json_events rows))
         \<and> sorted_wrt (\<lambda>x y. Event_start_time y \<le> Event_start_time x) rows
         \<and> length rows \<le> nat 1
         \<and> mset rows \<subseteq># mset (filter (spec_matches ?a) demo_table)
         \<and> (\<forall>x \<in># mset (filter (spec_matches ?a) demo_table) - mset rows. \<forall>y \<in> set rows.
               Event_start_time x \<le> Event_start_time y)"
    by auto
  with s l b f py_int_1 events_front_limit_1 show ?thesis
    by (simp only:) simp
qed

section \<open>The event query: the zone filter\<close>

text \<open>
  C2. The zone filter is to match an event exactly when the queried name is one of the
  event's zones. The handler matches the stored JSON text against the GLOB pattern
  \<^verbatim>\<open>*"zone"*\<close> and puts the parameter into the pattern as it is. The quotes make the
  match exact for plain names (\<open>yard\<close> does not match an event whose zones are
  \<open>front_yard\<close> and \<open>porch\<close>), but GLOB's own wildcards in the parameter stay active:
  \<^verbatim>\<open>zone=*\<close> matches every event with at least one zone, none of which is named \<^verbatim>\<open>*\<close>.
\<close>

theorem zone_wildcard_matches_non_member:
  "events py_int demo_table [''zone'' \<mapsto> ''*'']
     = Inr (Response 200 (Json_events [porch_event, yard_event]))
   \<and> ''*'' \<notin> set (Event_zones yard_event) \<and> ''*'' \<notin> set (Event_zones porch_event)
   \<and> events py_int demo_table [''zone'' \<mapsto> ''yard'']
     = Inr (Response 200 (Json_events [yard_event]))"
  by (simp add: events_def select_events_def clauses_of_def get_type_int_def Let_def
      and_then_def limit_rows_def demo_table_def demo_times demo_zones
      glob_star_yard glob_star_empty glob_star_porch glob_yard_yard glob_yard_porch glob_yard_empty)

text \<open>
  For plain names the pattern does test membership: when the queried name and the zone
  names of the event are plain, the zone clause holds exactly when the queried name is
  one of the event's zones. A name that is a proper part of a zone name does not match.
\<close>

lemma control_codes:
  "(of_char (CHR 0x0A) :: nat) = 10" "(of_char (CHR 0x0D) :: nat) = 13"
  "(of_char (CHR 0x09) :: nat) = 9" "(of_char (CHR 0x08) :: nat) = 8"
  "(of_char (CHR 0x0C) :: nat) = 12"
  by simp_all

lemma json_escape_plain:
  assumes "plain_char c"
  shows "json_escape c = [c]"
proof -
  from assms have r: "32 < (of_char c :: nat)" "(of_char c :: nat) < 127"
    and q: "c \<noteq> CHR 0x22" "c \<noteq> CHR 0x5C"
    by (simp_all add: plain_char_def)
  have n: "c \<noteq> CHR 0x0A" "c \<noteq> CHR 0x0D" "c \<noteq> CHR 0x09" "c \<noteq> CHR 0x08" "c \<noteq> CHR 0x0C"
    using r(1) control_codes by fastforce+
  from r have "\<not> ((of_char c :: nat) < 32 \<or> 126 < (of_char c :: nat))"
    by simp
  with q n show ?thesis
    by (simp only: json_escape_def if_False)
qed

lemma json_string_plain:
  "list_all plain_char w \<Longrightarrow> json_string w = CHR 0x22 # w @ [CHR 0x22]"
proof -
  assume "list_all plain_char w"
  then have "concat (map json_escape w) = w"
    by (induction w) (simp_all add: json_escape_plain)
  then show ?thesis
    by (simp add: json_string_def)
qed

lemma glob_literal:
  assumes "c \<noteq> CHR ''*''" and "c \<noteq> CHR ''?''" and "c \<noteq> CHR ''[''"
  shows "glob (c # p) s = (\<exists>s'. s = c # s' \<and> glob p s')"
  using assms by (cases s) auto

lemma glob_literals:
  assumes "\<forall>c \<in> set l. c \<noteq> CHR ''*'' \<and> c \<noteq> CHR ''?'' \<and> c \<noteq> CHR ''[''"
  shows "glob (l @ p) s = (\<exists>s'. s = l @ s' \<and> glob p s')"
  using assms
proof (induction l arbitrary: s)
  case Nil
  then show ?case by simp
next
  case (Cons c l)
  then have "glob (c # l @ p) s = (\<exists>s'. s = c # s' \<and> glob (l @ p) s')"
    by (intro glob_literal) simp_all
  with Cons show ?case
    by auto
qed

lemma glob_star: "glob (CHR ''*'' # p) s = (\<exists>u v. s = u @ v \<and> glob p v)"
proof (induction s)
  case Nil
  then show ?case by simp
next
  case (Cons c s)
  have "glob (CHR ''*'' # p) (c # s) = (glob p (c # s) \<or> glob (CHR ''*'' # p) s)"
    by simp
  also have "\<dots> = (glob p (c # s) \<or> (\<exists>u v. s = u @ v \<and> glob p v))"
    by (simp only: Cons.IH)
  also have "\<dots> = (\<exists>u v. c # s = u @ v \<and> glob p v)"
    by (auto simp add: Cons_eq_append_conv)
  finally show ?case .
qed

lemma glob_zone_pattern:
  assumes "list_all plain_char z"
  shows "glob (zone_pattern z) s = (\<exists>u v. s = u @ CHR 0x22 # z @ CHR 0x22 # v)"
proof -
  let ?l = "CHR 0x22 # z @ [CHR 0x22]"
  have l: "\<forall>c \<in> set ?l. c \<noteq> CHR ''*'' \<and> c \<noteq> CHR ''?'' \<and> c \<noteq> CHR ''[''"
    using assms by (auto simp add: list_all_iff plain_char_def)
  have e: "glob [CHR ''*''] v" for v
    using glob_star [of "[]" v] by simp
  have "zone_pattern z = CHR ''*'' # ?l @ [CHR ''*'']"
    by (simp add: zone_pattern_def)
  then have "glob (zone_pattern z) s = (\<exists>u v. s = u @ v \<and> glob (?l @ [CHR ''*'']) v)"
    by (simp only: glob_star)
  also have "\<dots> = (\<exists>u v. s = u @ v \<and> (\<exists>s'. v = ?l @ s' \<and> glob [CHR ''*''] s'))"
    by (simp only: glob_literals [OF l])
  also have "\<dots> = (\<exists>u v. s = u @ CHR 0x22 # z @ CHR 0x22 # v)"
    by (simp add: e del: glob.simps) blast
  finally show ?thesis .
qed

lemma c_string_plain:
  assumes "list_all plain_char z"
  shows "c_string (zone_pattern z) = zone_pattern z"
proof -
  have "\<not> plain_char (CHR 0x00)"
    by (simp add: plain_char_def)
  with assms have "CHR 0x00 \<notin> set z"
    by (auto simp add: list_all_iff)
  then show ?thesis
    by (auto simp add: c_string_def zone_pattern_def takeWhile_eq_all_conv)
qed

lemma split_quotes_not_Nil: "split_quotes s \<noteq> []"
  by (cases s) simp_all

lemma split_quotes_free: "CHR 0x22 \<notin> set s \<Longrightarrow> split_quotes s = [s]"
  by (induction s) auto

lemma split_quotes_segment:
  "CHR 0x22 \<notin> set z \<Longrightarrow> split_quotes (z @ CHR 0x22 # r) = z # split_quotes r"
  by (induction z) auto

lemma split_quotes_append:
  "split_quotes (u @ CHR 0x22 # r) = split_quotes u @ split_quotes r"
proof (induction u)
  case Nil
  then show ?case by simp
next
  case (Cons c u)
  then show ?case
    using split_quotes_not_Nil [of u] by (cases "split_quotes u") simp_all
qed

lemma split_quotes_prefix:
  "CHR 0x22 \<notin> set p \<Longrightarrow>
     split_quotes (p @ x) = (p @ hd (split_quotes x)) # tl (split_quotes x)"
  by (induction p) (auto simp add: split_quotes_not_Nil)

lemma split_quotes_join:
  assumes "\<forall>w \<in> set (w0 # ws). CHR 0x22 \<notin> set w" and "CHR 0x22 \<notin> set rest"
  shows "split_quotes (join '','' (map (\<lambda>w. CHR 0x22 # w @ [CHR 0x22]) (w0 # ws)) @ rest)
           = [] # intersperse '','' (w0 # ws) @ [rest]"
  using assms(1)
proof (induction ws arbitrary: w0)
  case Nil
  then show ?case
    using assms(2) by (simp add: split_quotes_segment split_quotes_free)
next
  case (Cons w1 ws)
  let ?q = "\<lambda>w. CHR 0x22 # w @ [CHR 0x22]"
  let ?j = "join '','' (map ?q (w1 # ws)) @ rest"
  have ih: "split_quotes ?j = [] # intersperse '','' (w1 # ws) @ [rest]"
    using Cons.prems by (intro Cons.IH) simp
  have "split_quotes ('','' @ ?j) = ('','' @ hd (split_quotes ?j)) # tl (split_quotes ?j)"
    by (intro split_quotes_prefix) simp
  then have s: "split_quotes ('','' @ ?j) = '','' # intersperse '','' (w1 # ws) @ [rest]"
    by (simp only: ih) simp
  have w: "CHR 0x22 \<notin> set w0"
    using Cons.prems by simp
  have "join '','' (map ?q (w0 # w1 # ws)) @ rest = CHR 0x22 # w0 @ CHR 0x22 # ('','' @ ?j)"
    by simp
  then have "split_quotes (join '','' (map ?q (w0 # w1 # ws)) @ rest)
               = [] # w0 # split_quotes ('','' @ ?j)"
    using split_quotes_segment [OF w, of "'','' @ ?j"] by (simp del: join.simps)
  with s show ?case
    by (simp del: join.simps)
qed

lemma split_quotes_zones_text:
  assumes "\<forall>w \<in> set ws. list_all plain_char w" and "ws \<noteq> []"
  shows "split_quotes (zones_text ws) = ''['' # intersperse '','' ws @ ['']'']"
proof -
  obtain w0 ws' where ws: "ws = w0 # ws'"
    using assms(2) by (cases ws) auto
  have q: "\<forall>w \<in> set (w0 # ws'). CHR 0x22 \<notin> set w"
    using assms(1) unfolding ws by (auto simp add: list_all_iff plain_char_def)
  have d: "zones_text ws
            = CHR ''['' # (join '','' (map (\<lambda>w. CHR 0x22 # w @ [CHR 0x22]) (w0 # ws')) @ '']'')"
  proof -
    have m: "map json_string ws = map (\<lambda>w. CHR 0x22 # w @ [CHR 0x22]) ws"
      using assms(1) by (intro map_cong refl json_string_plain) simp
    show ?thesis
      unfolding zones_text_def m by (simp add: ws del: join.simps)
  qed
  have j: "split_quotes (join '','' (map (\<lambda>w. CHR 0x22 # w @ [CHR 0x22]) (w0 # ws')) @ '']'')
           = [] # intersperse '','' (w0 # ws') @ ['']'']"
    using q by (intro split_quotes_join) simp_all
  show ?thesis
    unfolding d by (simp only: split_quotes.simps j ws) simp
qed

lemma intersperse_set: "x \<in> set (intersperse sep xs) \<Longrightarrow> x = sep \<or> x \<in> set xs"
  by (induction sep xs rule: intersperse.induct) auto

lemma join_holds_item: "\<exists>u v. join sep (xs @ y # ys) = u @ y @ v"
proof (induction xs)
  case Nil
  show ?case
    by (cases ys) (auto intro: exI [of _ "[]"])
next
  case (Cons x xs)
  then obtain u v where "join sep (xs @ y # ys) = u @ y @ v"
    by blast
  moreover obtain t ts where "xs @ y # ys = t # ts"
    by (cases "xs @ y # ys") auto
  ultimately have "join sep ((x # xs) @ y # ys) = (x @ sep @ u) @ y @ v"
    by simp
  then show ?case
    by blast
qed

lemma zone_filter_exact_for_plain_names:
  assumes "list_all plain_char z" and "\<forall>w \<in> set (Event_zones e). list_all plain_char w"
  shows "holds (Zones_glob (zone_pattern z)) e = (z \<in> set (Event_zones e))"
proof -
  let ?ws = "Event_zones e"
  let ?t = "zones_text ?ws"
  have g: "holds (Zones_glob (zone_pattern z)) e = (\<exists>u v. ?t = u @ CHR 0x22 # z @ CHR 0x22 # v)"
    using assms(1) by (simp add: glob_zone_pattern c_string_plain)
  have zq: "CHR 0x22 \<notin> set z" and zk: "CHR '','' \<notin> set z"
    using assms(1) by (simp_all add: list_all_iff plain_char_def) blast+
  have zc: "z \<noteq> '',''"
    using zk by auto
  have "z \<in> set ?ws" if "?t = u @ CHR 0x22 # z @ CHR 0x22 # v" for u v
  proof -
    have s: "split_quotes ?t = split_quotes u @ z # split_quotes v"
      by (simp add: that split_quotes_append split_quotes_free [OF zq])
    obtain a as where a: "split_quotes u = a # as"
      using split_quotes_not_Nil [of u] by (cases "split_quotes u") auto
    obtain bs b where b: "split_quotes v = bs @ [b]"
      using split_quotes_not_Nil [of v] by (cases "split_quotes v" rule: rev_cases) auto
    show ?thesis
    proof (cases "?ws = []")
      case True
      then have "split_quotes ?t = [''[]'']"
        by (simp add: zones_text_def)
      then have "[''[]''] = (a # as) @ z # split_quotes v"
        by (simp only: s a)
      then show ?thesis
        by simp
    next
      case False
      have "split_quotes ?t = ''['' # intersperse '','' ?ws @ ['']'']"
        using assms(2) False by (rule split_quotes_zones_text)
      then have "''['' # intersperse '','' ?ws @ ['']''] = (a # as) @ z # bs @ [b]"
        by (simp only: s a b)
      then have "intersperse '','' ?ws @ ['']''] = (as @ z # bs) @ [b]"
        by simp
      then have "intersperse '','' ?ws = as @ z # bs"
        by (simp only: append1_eq_conv)
      then have "z \<in> set (intersperse '','' ?ws)"
        by simp
      with zc show ?thesis
        by (auto dest: intersperse_set)
    qed
  qed
  moreover have "\<exists>u v. ?t = u @ CHR 0x22 # z @ CHR 0x22 # v" if "z \<in> set ?ws"
  proof -
    from that obtain xs ys where "?ws = xs @ z # ys"
      by (auto simp add: in_set_conv_decomp)
    then have "map json_string ?ws = map json_string xs @ json_string z # map json_string ys"
      by simp
    with join_holds_item [of "'',''" "map json_string xs" "json_string z" "map json_string ys"]
    obtain u v where "join '','' (map json_string ?ws) = u @ json_string z @ v"
      by auto
    then have "?t = (''['' @ u) @ CHR 0x22 # z @ CHR 0x22 # (v @ '']'')"
      using assms(1) by (simp add: zones_text_def json_string_plain)
    then show ?thesis
      by blast
  qed
  ultimately show ?thesis
    unfolding g by blast
qed

section \<open>The event query: parameters that do not convert\<close>

text \<open>
  C3 (as stated) has a request with an unparsable \<^verbatim>\<open>after\<close> fail with a 400-class
  response. The handler has no such answer: \<^verbatim>\<open>after=abc\<close> is answered with 200 and the
  same events as the request without parameters.
\<close>

theorem events_unparsable_after_ignored:
  "py_int ''abc'' = None
   \<and> events py_int demo_table [''after'' \<mapsto> ''abc'']
       = Inr (Response 200 (Json_events [street_event, porch_event, yard_event]))
   \<and> events py_int demo_table Map.empty
       = Inr (Response 200 (Json_events [street_event, porch_event, yard_event]))"
  by (simp add: py_int_abc events_after_abc)
    (simp add: events_def select_events_def clauses_of_def get_type_int_def Let_def
      and_then_def limit_rows_def demo_table_def demo_times)

text \<open>
  C3 (amended). An \<^verbatim>\<open>after\<close> or \<^verbatim>\<open>before\<close> that does not convert to an integer is
  treated as if the parameter were absent: the answer is that of the request without
  it. A \<^verbatim>\<open>limit\<close> is not converted by the handler; when the store rejects its text, the
  request ends with an exception (status 500), not with a 400-class response: the
  store's exception when the time bounds that convert lie in the signed 64-bit range,
  which the driver can bind. No request at all is answered with a 400-class response:
  every response of the handler has status 200.
\<close>

theorem events_unparsable_parameters:
  "(a ''after'' = Some t \<longrightarrow> py_int t = None \<longrightarrow>
      events to_integer table a = events to_integer table (a(''after'' := None)))
   \<and> (a ''before'' = Some u \<longrightarrow> py_int u = None \<longrightarrow>
      events to_integer table a = events to_integer table (a(''before'' := None)))
   \<and> (a ''limit'' = Some v \<longrightarrow> to_integer v = None \<longrightarrow>
      (\<exists>e. events to_integer table a = Inl e)
      \<and> ((case get_type_int a ''after'' of
             None \<Rightarrow> True | Some n \<Rightarrow> - (2 ^ 63) \<le> n \<and> n < 2 ^ 63) \<longrightarrow>
          (case get_type_int a ''before'' of
             None \<Rightarrow> True | Some n \<Rightarrow> - (2 ^ 63) \<le> n \<and> n < 2 ^ 63) \<longrightarrow>
          events to_integer table a = Inl StoreError))
   \<and> (case events to_integer table a of
         Inl e \<Rightarrow> True
       | Inr (Response status answer) \<Rightarrow> status = 200)"
proof -
  have 1: "a ''after'' = Some t \<longrightarrow> py_int t = None \<longrightarrow>
      events to_integer table a = events to_integer table (a(''after'' := None))"
    by (simp add: events_def clauses_of_def get_type_int_def)
  have 2: "a ''before'' = Some u \<longrightarrow> py_int u = None \<longrightarrow>
      events to_integer table a = events to_integer table (a(''before'' := None))"
    by (simp add: events_def clauses_of_def get_type_int_def)
  have 3: "a ''limit'' = Some v \<longrightarrow> to_integer v = None \<longrightarrow>
      (\<exists>e. events to_integer table a = Inl e)
      \<and> ((case get_type_int a ''after'' of
             None \<Rightarrow> True | Some n \<Rightarrow> - (2 ^ 63) \<le> n \<and> n < 2 ^ 63) \<longrightarrow>
          (case get_type_int a ''before'' of
             None \<Rightarrow> True | Some n \<Rightarrow> - (2 ^ 63) \<le> n \<and> n < 2 ^ 63) \<longrightarrow>
          events to_integer table a = Inl StoreError)"
  proof (intro impI conjI)
    assume l: "a ''limit'' = Some v" "to_integer v = None"
    show "\<exists>e. events to_integer table a = Inl e"
      using l by (simp add: events_def select_events_def and_then_def Let_def)
    assume "case get_type_int a ''after'' of
              None \<Rightarrow> True | Some n \<Rightarrow> - (2 ^ 63) \<le> n \<and> n < 2 ^ 63"
      and "case get_type_int a ''before'' of
              None \<Rightarrow> True | Some n \<Rightarrow> - (2 ^ 63) \<le> n \<and> n < 2 ^ 63"
    then have "list_all binds (clauses_of a)"
      unfolding binds_clauses_of by (auto split: option.splits)
    then show "events to_integer table a = Inl StoreError"
      using l by (simp add: events_def select_events_def and_then_def Let_def)
  qed
  have 4: "case events to_integer table a of
         Inl e \<Rightarrow> True
       | Inr (Response status answer) \<Rightarrow> status = 200"
    by (simp add: events_def and_then_def split: sum.splits)
  from 1 2 3 4 show ?thesis
    by (intro conjI)
qed

theorem events_unparsable_parameters_witness:
  "[''after'' \<mapsto> ''abc''] ''after'' = Some ''abc'' \<and> py_int ''abc'' = None
   \<and> events py_int demo_table [''after'' \<mapsto> ''abc'']
       = events py_int demo_table ([''after'' \<mapsto> ''abc''](''after'' := None))
   \<and> [''before'' \<mapsto> ''abc''] ''before'' = Some ''abc''
   \<and> events py_int demo_table [''before'' \<mapsto> ''abc'']
       = events py_int demo_table ([''before'' \<mapsto> ''abc''](''before'' := None))
   \<and> [''limit'' \<mapsto> ''abc''] ''limit'' = Some ''abc''
   \<and> get_type_int [''limit'' \<mapsto> ''abc''] ''after'' = None
   \<and> get_type_int [''limit'' \<mapsto> ''abc''] ''before'' = None
   \<and> events py_int demo_table [''limit'' \<mapsto> ''abc''] = Inl StoreError"
proof -
  have g: "get_type_int [''limit'' \<mapsto> ''abc''] ''after'' = None"
    "get_type_int [''limit'' \<mapsto> ''abc''] ''before'' = None"
    by (simp_all add: get_type_int_def)
  from events_unparsable_parameters
          [of "[''after'' \<mapsto> ''abc'']" "''abc''" py_int demo_table "''abc''" "''abc''"]
        events_unparsable_parameters
          [of "[''before'' \<mapsto> ''abc'']" "''abc''" py_int demo_table "''abc''" "''abc''"]
        events_unparsable_parameters
          [of "[''limit'' \<mapsto> ''abc'']" "''abc''" py_int demo_table "''abc''" "''abc''"]
        py_int_abc g
  show ?thesis
    by simp
qed

section \<open>The statistics snapshot\<close>

lemma stats_cameras_total:
  "fst (stats_cameras ar ms (tot, st))
     = foldl (float_add ar) tot (map (\<lambda>m. detection_fps (snd m)) ms)"
  by (induction ms arbitrary: tot st) auto

lemma stats_cameras_other:
  "name \<notin> fst ` set ms \<Longrightarrow> snd (stats_cameras ar ms (tot, st)) name = st name"
  by (induction ms arbitrary: tot st) auto

lemma stats_cameras_entry:
  "distinct (map fst ms) \<Longrightarrow> (name, m) \<in> set ms \<Longrightarrow>
     snd (stats_cameras ar ms (tot, st)) name = Some (Camera_entry (camera_entry ar m))"
proof (induction ms arbitrary: tot st)
  case Nil
  then show ?case by simp
next
  case (Cons x ms)
  obtain n c where x: "x = (n, c)" by (cases x)
  show ?case
  proof (cases "(name, m) = x")
    case True
    with Cons.prems x have "name \<notin> fst ` set ms"
      by auto
    with True x show ?thesis
      by (simp add: stats_cameras_other)
  next
    case False
    with Cons x show ?thesis
      by auto
  qed
qed

lemma py_round2_slow: "py_round2 (1 / 256) = 0" "py_round2 (1 / 128) = 1 / 100"
  by code_simp+

text \<open>
  C6 (as stated) equates the total detection rate of the snapshot with the sum of the
  detection rates that the snapshot reports per camera. The handler adds the stored
  values and rounds the sum; the per-camera values are rounded one by one. With two
  cameras at 0.00390625 each (a double, as is their sum 0.0078125), both are reported as
  0.0 and the total as 0.01.
\<close>

theorem stats_total_not_sum_of_reported:
  "stats_dict exact two_cameras ''front'' = Some (Camera_entry (camera_entry exact slow_camera))
   \<and> stats_dict exact two_cameras ''back'' = Some (Camera_entry (camera_entry exact slow_camera))
   \<and> report_detection_fps (camera_entry exact slow_camera) = 0
   \<and> stats_dict exact two_cameras ''detection_fps'' = Some (Number (1 / 100))
   \<and> (1 / 100 :: rat) \<noteq> 0 + 0"
  by (simp add: stats_dict_def two_cameras_def camera_entry_def slow_camera_def exact_def
      py_round2_slow)

text \<open>
  C6 (amended). Whatever the arithmetic of the doubles: the handler answers 200 and
  leaves the gauges as they were. The total detection rate of the snapshot is the
  rounding to two decimal places of the sum of the cameras' stored detection rates,
  added one after the other, in the order of iteration, to the number 0; each camera's
  entry (for camera names that are distinct and are not the keys \<^verbatim>\<open>detectors\<close> and
  \<^verbatim>\<open>detection_fps\<close> of the same dictionary) reports the rounding of its own stored rate.
  The total is not computed from the reported rates, and need not be their sum.
\<close>

theorem stats_total_detection_fps:
  "stats ar current_app = (Stats_response 200 (stats_dict ar current_app), current_app)
   \<and> stats_dict ar current_app ''detection_fps''
       = Some (Number (float_round2 ar
           (foldl (float_add ar) (float_zero ar)
              (map (\<lambda>m. detection_fps (snd m)) (camera_metrics current_app)))))
   \<and> (distinct (map fst (camera_metrics current_app)) \<longrightarrow>
        (name, m) \<in> set (camera_metrics current_app) \<longrightarrow>
        name \<noteq> ''detectors'' \<longrightarrow> name \<noteq> ''detection_fps'' \<longrightarrow>
        stats_dict ar current_app name = Some (Camera_entry (camera_entry ar m))
        \<and> report_detection_fps (camera_entry ar m) = float_round2 ar (detection_fps m))"
proof -
  let ?ms = "camera_metrics current_app"
  let ?raw = "map (\<lambda>m. detection_fps (snd m)) ?ms"
  obtain tot st where c: "stats_cameras ar ?ms (float_zero ar, Map.empty) = (tot, st)"
    by (cases "stats_cameras ar ?ms (float_zero ar, Map.empty)")
  have t: "tot = foldl (float_add ar) (float_zero ar) ?raw"
    using stats_cameras_total [of ar ?ms "float_zero ar" Map.empty] c by simp
  have d: "stats_dict ar current_app ''detection_fps''
             = Some (Number (float_round2 ar (foldl (float_add ar) (float_zero ar) ?raw)))"
    by (simp add: stats_dict_def c t)
  have e: "stats_dict ar current_app name = Some (Camera_entry (camera_entry ar m))"
    if "distinct (map fst ?ms)" and "(name, m) \<in> set ?ms"
      and "name \<noteq> ''detectors''" and "name \<noteq> ''detection_fps''"
  proof -
    have "st name = Some (Camera_entry (camera_entry ar m))"
      using stats_cameras_entry [OF that(1,2), of ar "float_zero ar" Map.empty] c by simp
    with that(3,4) show ?thesis
      by (simp add: stats_dict_def c)
  qed
  from d e show ?thesis
    by (simp add: stats_def camera_entry_def)
qed

theorem stats_total_detection_fps_witness:
  "distinct (map fst (camera_metrics two_cameras))
   \<and> (''front'', slow_camera) \<in> set (camera_metrics two_cameras)
   \<and> ''front'' \<noteq> ''detectors'' \<and> ''front'' \<noteq> ''detection_fps''
   \<and> snd (stats exact two_cameras) = two_cameras
   \<and> stats_dict exact two_cameras ''detection_fps'' = Some (Number (py_round2 (1 / 128)))
   \<and> stats_dict exact two_cameras ''front'' = Some (Camera_entry (camera_entry exact slow_camera))
   \<and> report_detection_fps (camera_entry exact slow_camera) = py_round2 (1 / 256)"
proof -
  have d: "distinct (map fst (camera_metrics two_cameras))"
    and i: "(''front'', slow_camera) \<in> set (camera_metrics two_cameras)"
    and s: "foldl (float_add exact) (float_zero exact)
              (map (\<lambda>m. detection_fps (snd m)) (camera_metrics two_cameras)) = 1 / 128"
    and f: "detection_fps slow_camera = 1 / 256"
    and r: "float_round2 exact = py_round2"
    by (simp_all add: two_cameras_def slow_camera_def exact_def)
  from stats_total_detection_fps [of exact two_cameras "''front''" slow_camera] d i
  show ?thesis
    by (simp add: s f r)
qed

section \<open>The pace of the stream\<close>











end
